theory Spec2Isabelle
  imports Complex_Main "HOL-Library.Log_Nat"
begin

section \<open>Data model of particles.js\<close>

text \<open>
  The program is modelled in two layers. The system (\<open>update\<close>, \<open>draw\<close>,
  \<open>initialize\<close>, \<open>getCanvasPos\<close>) carries its numbers as \<^typ>\<open>real\<close> with exact
  operations: what is proved of it is about the collection, the drawing context and
  which fields an operation writes, not about the values that the arithmetic of the
  source produces. The one operation
  there whose result can be non-finite on finite operands, the division in
  \<open>getCanvasPos\<close>, has an explicit result type. The values that the two animators
  compute are another matter: JavaScript numbers are IEEE-754 doubles, and the section on
  double precision models the animators' steps again with the rounding, the infinities
  and NaN of that arithmetic. The two counting fields \<open>maxParticles\<close> and
  \<open>particlesPerUpdate\<close> are integers (\<^typ>\<open>int\<close>), negative values included.

  Object literals \<open>{ x : .., y : .. }\<close> and \<open>{ r : .., g : .., b : .., a : .. }\<close> are
  records. Every particle owns deep copies of its position, size and colour
  (\<open>jQuery.extend(true, {}, ..)\<close>), so particles are plain values and the particle
  array is a list, oldest entry first (\<open>push\<close> appends, \<open>shift\<close> removes the head).
\<close>

record xy =
  x_of :: real
  y_of :: real

record rgba =
  r_of :: real
  g_of :: real
  b_of :: real
  a_of :: real

text \<open>\<open>function Particle(xypos, xysize, rgbacolor, speed)\<close>: the four fields of a particle.\<close>

record particle =
  pos :: xy
  psize :: xy
  color :: rgba
  velocity :: xy

datatype animator = DefaultParticleAnimator | FancyParticleAnimator

datatype renderer = SquareParticleRenderer | RoundParticleRenderer

section \<open>Particle animators\<close>

text \<open>
  The body of the loop of \<open>DefaultParticleAnimator.prototype.update\<close>, applied to the
  particle \<open>p = particles[i]\<close>: which fields it writes, from which fields. The
  arithmetic is exact in this layer; \<open>default_step64\<close> and \<open>fancy_step64\<close> below are
  the same bodies with the arithmetic of the source.
\<close>

definition default_step :: "particle \<Rightarrow> particle" where
  "default_step p =
     p\<lparr>pos := \<lparr>x_of = x_of (pos p) + x_of (velocity p),
                y_of = y_of (pos p) + y_of (velocity p)\<rparr>,
       psize := \<lparr>x_of = x_of (psize p) * 0.98, y_of = y_of (psize p) * 0.98\<rparr>\<rparr>"

text \<open>The body of the loop of \<open>FancyParticleAnimator.prototype.update\<close>.\<close>

definition fancy_step :: "particle \<Rightarrow> particle" where
  "fancy_step p =
     p\<lparr>pos := \<lparr>x_of = x_of (pos p) + x_of (velocity p),
                y_of = y_of (pos p) + y_of (velocity p)\<rparr>,
       psize := \<lparr>x_of = x_of (psize p) * 0.98, y_of = y_of (psize p) * 0.98\<rparr>,
       color := \<lparr>r_of = r_of (color p) * 1.02,
                  g_of = g_of (color p) * 0.98,
                  b_of = b_of (color p) * 0.98,
                  a_of = a_of (color p) * 0.99\<rparr>\<rparr>"

text \<open>
  \<open>particleAnimator.update(particles)\<close>: the loop \<open>for (i = 0; i < particles.length; i++)\<close>
  visits every entry once, in order, and mutates it in place; the array keeps its length
  and its order.
\<close>

fun animator_step :: "animator \<Rightarrow> particle \<Rightarrow> particle" where
  "animator_step DefaultParticleAnimator p = default_step p"
| "animator_step FancyParticleAnimator p = fancy_step p"

definition animator_update :: "animator \<Rightarrow> particle list \<Rightarrow> particle list" where
  "animator_update a ps = map (animator_step a) ps"

section \<open>The state of the program\<close>

text \<open>
  The 2D drawing context of a canvas, as far as the program uses it: the drawing state
  that \<open>save\<close> and \<open>restore\<close> copy (fill style and composite operation), the stack
  of saved states, and the painting commands issued so far, each recorded with the
  drawing state it was painted under. A fill style is the string built by
  \<open>rgbaToString\<close>, kept as its four components (the three rounded channels and alpha),
  or the context's initial style.
\<close>

datatype fillstyle = InitialStyle | RgbaString int int int real

datatype composite = SourceOver | Lighter

record drawstate =
  fillStyle :: fillstyle
  globalCompositeOperation :: composite

datatype drawop =
    ResetBitmap
  | ClearRect real real real real
  | FillRect real real real real drawstate
  | BeginPath
  | Arc real real real real real bool
  | Fill drawstate

record canvas_element =
  canvas_width :: nat
  canvas_height :: nat
  offsetLeft :: real
  offsetTop :: real
  state :: drawstate
  saved :: "drawstate list"
  painted :: "drawop list"

text \<open>An element of the document: a canvas, or something that has no \<open>getContext\<close>.\<close>

datatype element = Canvas canvas_element | OtherElement

text \<open>
  The whole state: the configuration fields of the \<open>ParticleSystem\<close> object, the
  variables of its closure (\<open>particles\<close>, \<open>particleOrigin\<close>, \<open>height\<close>, \<open>width\<close>),
  the global variable \<open>context\<close> (the field \<open>context_var\<close>), and the environment:
  the document, the window's inner size, and the values that \<open>Math.random()\<close> will
  return, with the number of calls made so far. \<open>canvas\<close> and \<open>context_var\<close> hold
  references: the id under which the canvas element is in the document.
\<close>

record world =
  canvasId :: "string option"
  autoResize :: bool
  backgroundColor :: rgba
  maxParticles :: int
  particlesPerUpdate :: int
  particleSpeed :: real
  particleSize :: xy
  particleColor :: rgba
  particleOrigin :: xy
  particleRenderer :: renderer
  particleAnimator :: animator
  canvas :: "string option"
  particles :: "particle list"
  particleOrigin_var :: xy
  height :: real
  width :: real
  context_var :: "string option"
  document :: "string \<Rightarrow> element option"
  innerWidth :: real
  innerHeight :: real
  random_values :: "nat \<Rightarrow> real"
  random_calls :: nat

section \<open>ParticleSystem.update\<close>

text \<open>\<open>Math.random()\<close>: the next value of the sequence.\<close>

definition Math_random :: "world \<Rightarrow> real \<times> world" where
  "Math_random w = (random_values w (random_calls w), w\<lparr>random_calls := random_calls w + 1\<rparr>)"

text \<open>
  \<open>new Particle(xypos, xysize, rgbacolor, speed)\<close>: the x component of the velocity
  draws its random number first.
\<close>

definition Particle :: "xy \<Rightarrow> xy \<Rightarrow> rgba \<Rightarrow> real \<Rightarrow> world \<Rightarrow> particle \<times> world" where
  "Particle xypos xysize rgbacolor speed w =
     (let (r1, w1) = Math_random w;
          (r2, w2) = Math_random w1
      in (\<lparr>pos = xypos, psize = xysize, color = rgbacolor,
           velocity = \<lparr>x_of = (r1 - 0.5) * speed, y_of = (r2 - 0.5) * speed\<rparr>\<rparr>, w2))"

text \<open>
  The spawn loop \<open>for (var i = 0; i < this.particlesPerUpdate; i++)\<close>, from the value
  \<open>i\<close> of its counter on. \<open>jQuery.extend(true, {}, v)\<close> is a deep copy, the value \<open>v\<close>.
\<close>

function spawn_loop :: "int \<Rightarrow> world \<Rightarrow> world" where
  "spawn_loop i w =
     (if i < particlesPerUpdate w then
        (let (p, w1) = Particle (particleOrigin_var w) (particleSize w) (particleColor w)
                         (particleSpeed w) w
         in spawn_loop (i + 1) (w1\<lparr>particles := particles w1 @ [p]\<rparr>))
      else w)"
  by pat_completeness auto
termination
  by (relation "measure (\<lambda>(i, w). nat (particlesPerUpdate w - i))")
     (auto simp: Particle_def Math_random_def Let_def)

text \<open>\<open>particles.shift()\<close>: removes the first entry; an empty array stays empty.\<close>

fun shift :: "'a list \<Rightarrow> 'a list" where
  "shift [] = []"
| "shift (p # ps) = ps"

text \<open>
  The trimming loop \<open>while (particles.length > this.maxParticles) particles.shift()\<close>.
  With a negative \<open>maxParticles\<close> its condition stays true on the empty array, and the
  loop does not end: the result is \<open>None\<close>.
\<close>

partial_function (option) trim_loop :: "world \<Rightarrow> world option" where
  "trim_loop w =
     (if int (length (particles w)) > maxParticles w
      then trim_loop (w\<lparr>particles := shift (particles w)\<rparr>)
      else Some w)"

text \<open>The three phases of \<open>ParticleSystem.prototype.update\<close>, up to the trimming loop.\<close>

definition aged :: "world \<Rightarrow> world" where
  "aged w = w\<lparr>particles := animator_update (particleAnimator w) (particles w)\<rparr>"

definition with_origin :: "world \<Rightarrow> world" where
  "with_origin w =
     w\<lparr>particleOrigin_var := \<lparr>x_of = width w * x_of (particleOrigin w),
                               y_of = height w * y_of (particleOrigin w)\<rparr>\<rparr>"

definition spawned :: "world \<Rightarrow> world" where
  "spawned w = spawn_loop 0 (with_origin (aged w))"

definition update :: "world \<Rightarrow> world option" where
  "update w = trim_loop (spawned w)"

text \<open>\<open>update()\<close> called \<open>n\<close> times in a row, nothing else in between.\<close>

fun update_n :: "nat \<Rightarrow> world \<Rightarrow> world option" where
  "update_n 0 w = Some w"
| "update_n (Suc n) w = (case update w of None \<Rightarrow> None | Some w' \<Rightarrow> update_n n w')"

text \<open>
  The particle that the \<open>j\<close>-th iteration (from 0) of the spawn loop creates when the
  loop starts in \<open>w\<close>: the \<open>Particle\<close> constructor with the \<open>2 j\<close> random numbers of
  the earlier iterations consumed. The loop is shown below to push exactly these.
\<close>

definition spawn_particle :: "world \<Rightarrow> nat \<Rightarrow> particle" where
  "spawn_particle w j =
     \<lparr>pos = particleOrigin_var w, psize = particleSize w, color = particleColor w,
      velocity =
        \<lparr>x_of = (random_values w (random_calls w + 2 * j) - 0.5) * particleSpeed w,
         y_of = (random_values w (random_calls w + 2 * j + 1) - 0.5) * particleSpeed w\<rparr>\<rparr>"

section \<open>Drawing\<close>

datatype error = TypeError | IndexSizeError

text \<open>
  \<open>rgbaToString\<close>: \<open>Math.round\<close> rounds to the nearest integer, a half towards
  \<open>+\<infinity>\<close>; alpha is passed through.
\<close>

definition Math_round :: "real \<Rightarrow> int" where
  "Math_round v = \<lfloor>v + 1 / 2\<rfloor>"

definition rgbaToString :: "rgba \<Rightarrow> fillstyle" where
  "rgbaToString c =
     RgbaString (Math_round (r_of c)) (Math_round (g_of c)) (Math_round (b_of c)) (a_of c)"

text \<open>
  The methods of the drawing context that the program calls. \<open>restore\<close> on an empty
  stack does nothing; \<open>arc\<close> with a negative radius throws.
\<close>

definition initial_drawstate :: drawstate where
  "initial_drawstate = \<lparr>fillStyle = InitialStyle, globalCompositeOperation = SourceOver\<rparr>"

definition ctx_save :: "canvas_element \<Rightarrow> canvas_element" where
  "ctx_save c = c\<lparr>saved := state c # saved c\<rparr>"

definition ctx_restore :: "canvas_element \<Rightarrow> canvas_element" where
  "ctx_restore c = (case saved c of [] \<Rightarrow> c | s # ss \<Rightarrow> c\<lparr>state := s, saved := ss\<rparr>)"

definition ctx_clearRect :: "real \<Rightarrow> real \<Rightarrow> real \<Rightarrow> real \<Rightarrow> canvas_element \<Rightarrow> canvas_element" where
  "ctx_clearRect x y w h c = c\<lparr>painted := painted c @ [ClearRect x y w h]\<rparr>"

definition ctx_fillRect :: "real \<Rightarrow> real \<Rightarrow> real \<Rightarrow> real \<Rightarrow> canvas_element \<Rightarrow> canvas_element" where
  "ctx_fillRect x y w h c = c\<lparr>painted := painted c @ [FillRect x y w h (state c)]\<rparr>"

definition ctx_set_fillStyle :: "fillstyle \<Rightarrow> canvas_element \<Rightarrow> canvas_element" where
  "ctx_set_fillStyle s c = c\<lparr>state := (state c)\<lparr>fillStyle := s\<rparr>\<rparr>"

definition ctx_set_globalCompositeOperation :: "composite \<Rightarrow> canvas_element \<Rightarrow> canvas_element" where
  "ctx_set_globalCompositeOperation g c = c\<lparr>state := (state c)\<lparr>globalCompositeOperation := g\<rparr>\<rparr>"

definition ctx_beginPath :: "canvas_element \<Rightarrow> canvas_element" where
  "ctx_beginPath c = c\<lparr>painted := painted c @ [BeginPath]\<rparr>"

definition ctx_arc ::
  "real \<Rightarrow> real \<Rightarrow> real \<Rightarrow> real \<Rightarrow> real \<Rightarrow> bool \<Rightarrow> canvas_element
     \<Rightarrow> (error \<times> canvas_element) + canvas_element" where
  "ctx_arc x y radius a0 a1 ccw c =
     (if radius < 0 then Inl (IndexSizeError, c)
      else Inr (c\<lparr>painted := painted c @ [Arc x y radius a0 a1 ccw]\<rparr>))"

definition ctx_fill :: "canvas_element \<Rightarrow> canvas_element" where
  "ctx_fill c = c\<lparr>painted := painted c @ [Fill (state c)]\<rparr>"

text \<open>
  Assigning \<open>canvas.width\<close> or \<open>canvas.height\<close>: the attribute is an unsigned long
  (the number is truncated towards zero and taken modulo \<open>2^32\<close>; a value above
  \<open>2^31 - 1\<close> gives the default, 300 for the width and 150 for the height), and the
  assignment resets the bitmap and the whole drawing context.
\<close>

definition canvas_dimension :: "nat \<Rightarrow> real \<Rightarrow> nat" where
  "canvas_dimension dflt v =
     (let n = (if v < 0 then - \<lfloor>- v\<rfloor> else \<lfloor>v\<rfloor>) mod 2 ^ 32
      in if n > 2 ^ 31 - 1 then dflt else nat n)"

definition ctx_reset :: "canvas_element \<Rightarrow> canvas_element" where
  "ctx_reset c = c\<lparr>state := initial_drawstate, saved := [], painted := painted c @ [ResetBitmap]\<rparr>"

definition set_canvas_width :: "real \<Rightarrow> canvas_element \<Rightarrow> canvas_element" where
  "set_canvas_width v c = ctx_reset (c\<lparr>canvas_width := canvas_dimension 300 v\<rparr>)"

definition set_canvas_height :: "real \<Rightarrow> canvas_element \<Rightarrow> canvas_element" where
  "set_canvas_height v c = ctx_reset (c\<lparr>canvas_height := canvas_dimension 150 v\<rparr>)"

text \<open>The particle renderers: \<open>SquareParticleRenderer\<close> and \<open>RoundParticleRenderer\<close>.\<close>

fun renderer_draw ::
  "renderer \<Rightarrow> particle \<Rightarrow> canvas_element \<Rightarrow> (error \<times> canvas_element) + canvas_element" where
  "renderer_draw SquareParticleRenderer p c =
     Inr (ctx_fillRect (x_of (pos p)) (y_of (pos p)) (x_of (psize p)) (y_of (psize p))
            (ctx_set_fillStyle (rgbaToString (color p)) c))"
| "renderer_draw RoundParticleRenderer p c =
     (let c1 = ctx_beginPath c;
          c2 = ctx_set_fillStyle (rgbaToString (color p)) c1;
          radius = max (x_of (psize p)) (y_of (psize p)) / 2
      in case ctx_arc (x_of (pos p) + radius) (y_of (pos p) + radius) radius 0 (2 * pi) False c2 of
           Inl e \<Rightarrow> Inl e
         | Inr c3 \<Rightarrow> Inr (ctx_fill c3))"

text \<open>
  The loop \<open>for (i = 0; i < particles.length; i++) particleRenderer.draw(particles[i])\<close>
  of both animators; an exception of the renderer ends it.
\<close>

fun draw_particles ::
  "renderer \<Rightarrow> particle list \<Rightarrow> canvas_element \<Rightarrow> (error \<times> canvas_element) + canvas_element" where
  "draw_particles rd [] c = Inr c"
| "draw_particles rd (p # ps) c =
     (case renderer_draw rd p c of
        Inl e \<Rightarrow> Inl e
      | Inr c' \<Rightarrow> draw_particles rd ps c')"

fun animator_draw ::
  "animator \<Rightarrow> particle list \<Rightarrow> renderer \<Rightarrow> canvas_element
     \<Rightarrow> (error \<times> canvas_element) + canvas_element" where
  "animator_draw DefaultParticleAnimator ps rd c = draw_particles rd ps c"
| "animator_draw FancyParticleAnimator ps rd c =
     draw_particles rd ps (ctx_set_globalCompositeOperation Lighter c)"

text \<open>
  The object behind the global \<open>context\<close>: none while the variable is undefined (a
  use of \<open>context\<close> then throws a TypeError), otherwise the canvas that the document
  holds under the id that \<open>initialize\<close> stored. \<open>put_context\<close> writes the canvas back.
\<close>

definition the_context :: "world \<Rightarrow> (string \<times> canvas_element) option" where
  "the_context w =
     (case context_var w of
        None \<Rightarrow> None
      | Some k \<Rightarrow> (case document w k of Some (Canvas c) \<Rightarrow> Some (k, c) | _ \<Rightarrow> None))"

definition put_context :: "string \<Rightarrow> canvas_element \<Rightarrow> world \<Rightarrow> world" where
  "put_context k c w = w\<lparr>document := (document w)(k \<mapsto> Canvas c)\<rparr>"

text \<open>
  The first four statements of \<open>ParticleSystem.prototype.draw\<close> (restore, clearRect,
  fillRect, save), with the closure's \<open>width\<close> and \<open>height\<close>.
\<close>

definition draw_background :: "real \<Rightarrow> real \<Rightarrow> canvas_element \<Rightarrow> canvas_element" where
  "draw_background wd ht c =
     ctx_save (ctx_fillRect 0 0 wd ht (ctx_clearRect 0 0 wd ht (ctx_restore c)))"

text \<open>
  \<open>ParticleSystem.prototype.draw\<close>. An exception leaves the state as it is when
  thrown, so an error carries the state.
\<close>

definition draw :: "world \<Rightarrow> (error \<times> world) + world" where
  "draw w =
     (case the_context w of
        None \<Rightarrow> Inl (TypeError, w)
      | Some (k, c) \<Rightarrow>
          (case animator_draw (particleAnimator w) (particles w) (particleRenderer w)
                  (draw_background (width w) (height w) c) of
             Inl (e, c') \<Rightarrow> Inl (e, put_context k c' w)
           | Inr c' \<Rightarrow> Inr (put_context k c' w)))"

text \<open>The state after a call, whether it returned or threw.\<close>

fun state_after :: "(error \<times> 'a) + 'a \<Rightarrow> 'a" where
  "state_after (Inl (e, w)) = w"
| "state_after (Inr w) = w"

text \<open>
  Two observations of the context: the drawing state on top of its stack of saved
  states, which the next \<open>restore\<close> brings back, and the painting commands so far.
\<close>

definition saved_top :: "world \<Rightarrow> drawstate option" where
  "saved_top w =
     (case the_context w of
        None \<Rightarrow> None
      | Some (k, c) \<Rightarrow> (case saved c of [] \<Rightarrow> None | s # ss \<Rightarrow> Some s))"

definition painted_ops :: "world \<Rightarrow> drawop list" where
  "painted_ops w = (case the_context w of None \<Rightarrow> [] | Some (k, c) \<Rightarrow> painted c)"

text \<open>\<open>ParticleSystem.prototype.resize\<close>.\<close>

definition resize :: "world \<Rightarrow> (error \<times> world) + world" where
  "resize w =
     (case the_context w of
        None \<Rightarrow> Inl (TypeError, w)
      | Some (k, c) \<Rightarrow>
          (let c' = (if autoResize w
                     then set_canvas_height (innerHeight w * 0.99)
                            (set_canvas_width (innerWidth w * 0.99) c)
                     else c);
               w' = put_context k c' w
           in Inr (w'\<lparr>width := real (canvas_width c'), height := real (canvas_height c')\<rparr>)))"

text \<open>
  \<open>ParticleSystem.prototype.initialize\<close>. \<open>canvasId || 'canvas'\<close> is \<open>'canvas'\<close> for
  an undefined or empty id. \<open>getElementById\<close> gives \<open>null\<close> for an unknown id, and the
  call of \<open>getContext\<close> on \<open>null\<close>, or on an element that has no such method, throws.
\<close>

definition initialize :: "world \<Rightarrow> (error \<times> world) + world" where
  "initialize w =
     (let k = (case canvasId w of None \<Rightarrow> ''canvas'' | Some s \<Rightarrow> if s = [] then ''canvas'' else s)
      in case document w k of
           None \<Rightarrow> Inl (TypeError, w\<lparr>canvas := None\<rparr>)
         | Some OtherElement \<Rightarrow> Inl (TypeError, w\<lparr>canvas := Some k\<rparr>)
         | Some (Canvas c0) \<Rightarrow>
             (case resize (w\<lparr>canvas := Some k, context_var := Some k\<rparr>) of
                Inl e \<Rightarrow> Inl e
              | Inr w1 \<Rightarrow>
                  (case the_context w1 of
                     None \<Rightarrow> Inl (TypeError, w1)
                   | Some (k1, c1) \<Rightarrow>
                       Inr (put_context k1
                              (ctx_save (ctx_set_fillStyle (rgbaToString (backgroundColor w1)) c1))
                              w1))))"

text \<open>
  \<open>new ParticleSystem(canvasId)\<close> in a page that has just loaded the script: the
  defaults of the constructor, the global \<open>context\<close> still undefined.
\<close>

definition ParticleSystem ::
  "string option \<Rightarrow> (string \<Rightarrow> element option) \<Rightarrow> real \<Rightarrow> real \<Rightarrow> (nat \<Rightarrow> real) \<Rightarrow> world" where
  "ParticleSystem cid doc iw ih rnd =
     \<lparr>canvasId = cid,
      autoResize = False,
      backgroundColor = \<lparr>r_of = 0, g_of = 0, b_of = 0, a_of = 1\<rparr>,
      maxParticles = 500,
      particlesPerUpdate = 1,
      particleSpeed = 0,
      particleSize = \<lparr>x_of = 1, y_of = 1\<rparr>,
      particleColor = \<lparr>r_of = 255, g_of = 255, b_of = 255, a_of = 1\<rparr>,
      particleOrigin = \<lparr>x_of = 0.5, y_of = 0.5\<rparr>,
      particleRenderer = RoundParticleRenderer,
      particleAnimator = DefaultParticleAnimator,
      canvas = None,
      particles = [],
      particleOrigin_var = \<lparr>x_of = 0, y_of = 0\<rparr>,
      height = 0,
      width = 0,
      context_var = None,
      document = doc,
      innerWidth = iw,
      innerHeight = ih,
      random_values = rnd,
      random_calls = 0\<rparr>"

section \<open>getCanvasPos\<close>

text \<open>
  A quotient of two JavaScript numbers: division by zero gives an infinity or NaN,
  which are kept apart from the numbers.
\<close>

datatype quotient = Num real | PosInfinity | NegInfinity | NaN

definition js_div :: "real \<Rightarrow> real \<Rightarrow> quotient" where
  "js_div a b =
     (if b \<noteq> 0 then Num (a / b)
      else if a > 0 then PosInfinity
      else if a < 0 then NegInfinity
      else NaN)"

record mouseevent =
  clientX :: real
  clientY :: real

record fraction =
  frac_x :: quotient
  frac_y :: quotient

text \<open>
  \<open>getCanvasPos(mouseevent, canvas)\<close> keeps its intermediate values in \<open>this.x\<close> and
  \<open>this.y\<close>: \<open>getCanvasPos_this\<close> is what it leaves there, \<open>getCanvasPos\<close> what it
  returns.
\<close>

definition getCanvasPos_this :: "mouseevent \<Rightarrow> canvas_element \<Rightarrow> xy" where
  "getCanvasPos_this ev cv =
     \<lparr>x_of = clientX ev - offsetLeft cv, y_of = clientY ev - offsetTop cv\<rparr>"

definition getCanvasPos :: "mouseevent \<Rightarrow> canvas_element \<Rightarrow> fraction" where
  "getCanvasPos ev cv =
     (let this = getCanvasPos_this ev cv
      in \<lparr>frac_x = js_div (x_of this) (real (canvas_width cv)),
          frac_y = js_div (y_of this) (real (canvas_height cv))\<rparr>)"

text \<open>A returned coordinate that is a number of the interval from 0 to 1.\<close>

fun in_unit_interval :: "quotient \<Rightarrow> bool" where
  "in_unit_interval (Num v) = (0 \<le> v \<and> v \<le> 1)"
| "in_unit_interval PosInfinity = False"
| "in_unit_interval NegInfinity = False"
| "in_unit_interval NaN = False"

section \<open>The animators in double precision\<close>

text \<open>
  A double: a finite number, an infinity or NaN. The finite doubles are the reals that
  \<open>round64\<close> leaves as they are; the two zeros are one value here, since no operation of
  the animators tells them apart.
\<close>

datatype double = Finite real | PlusInf | MinusInf | NotANumber

text \<open>
  Rounding to nearest, ties to even, with 53 bits of precision. \<open>binade x\<close> is the
  exponent \<open>e\<close> with \<open>2^e \<le> |x| < 2^(e+1)\<close>, found from the bit length of the integer
  part of \<open>|x|\<close> or of \<open>1 / |x|\<close>. The spacing of the doubles around \<open>x\<close> is
  \<open>2^(e - 52)\<close>, and \<open>2^(-1074)\<close> below the normal range. A result of magnitude
  \<open>2^1024\<close> or more overflows to an infinity.
\<close>

definition binade :: "real \<Rightarrow> int" where
  "binade x = (if 1 \<le> \<bar>x\<bar> then bitlen \<lfloor>\<bar>x\<bar>\<rfloor> - 1 else - bitlen (\<lceil>1 / \<bar>x\<bar>\<rceil> - 1))"

definition ulp :: "real \<Rightarrow> real" where
  "ulp x = 2 powi (max (binade x) (- 1022) - 52)"

definition round_even :: "real \<Rightarrow> int" where
  "round_even y =
     (let f = \<lfloor>y\<rfloor>
      in if y - of_int f < 1 / 2 then f
         else if 1 / 2 < y - of_int f then f + 1
         else if even f then f else f + 1)"

definition nearest :: "real \<Rightarrow> real" where
  "nearest x = (if x = 0 then 0 else of_int (round_even (x / ulp x)) * ulp x)"

definition round64 :: "real \<Rightarrow> double" where
  "round64 x =
     (let r = nearest x
      in if 2 ^ 1024 \<le> r then PlusInf
         else if r \<le> - (2 ^ 1024) then MinusInf
         else Finite r)"

text \<open>The largest relative error of one rounding in the normal range, \<open>2^(-53)\<close>.\<close>

definition unit_roundoff :: real where
  "unit_roundoff = 1 / 2 ^ 53"

text \<open>The product and the sum of two doubles, as \<open>*\<close> and \<open>+\<close> of the source compute them.\<close>

fun dmul :: "double \<Rightarrow> double \<Rightarrow> double" where
  "dmul (Finite a) (Finite b) = round64 (a * b)"
| "dmul NotANumber y = NotANumber"
| "dmul x NotANumber = NotANumber"
| "dmul PlusInf (Finite b) = (if b = 0 then NotANumber else if 0 < b then PlusInf else MinusInf)"
| "dmul MinusInf (Finite b) = (if b = 0 then NotANumber else if 0 < b then MinusInf else PlusInf)"
| "dmul (Finite a) PlusInf = (if a = 0 then NotANumber else if 0 < a then PlusInf else MinusInf)"
| "dmul (Finite a) MinusInf = (if a = 0 then NotANumber else if 0 < a then MinusInf else PlusInf)"
| "dmul PlusInf PlusInf = PlusInf"
| "dmul PlusInf MinusInf = MinusInf"
| "dmul MinusInf PlusInf = MinusInf"
| "dmul MinusInf MinusInf = PlusInf"

fun dadd :: "double \<Rightarrow> double \<Rightarrow> double" where
  "dadd (Finite a) (Finite b) = round64 (a + b)"
| "dadd NotANumber y = NotANumber"
| "dadd x NotANumber = NotANumber"
| "dadd PlusInf MinusInf = NotANumber"
| "dadd MinusInf PlusInf = NotANumber"
| "dadd PlusInf y = PlusInf"
| "dadd MinusInf y = MinusInf"
| "dadd (Finite a) PlusInf = PlusInf"
| "dadd (Finite a) MinusInf = MinusInf"

text \<open>
  A particle whose numbers are doubles, and the bodies of the loops of
  \<open>DefaultParticleAnimator.prototype.update\<close> and
  \<open>FancyParticleAnimator.prototype.update\<close> over it: each \<open>+=\<close> and \<open>*=\<close> is one
  rounded operation, and a literal such as \<open>0.98\<close> is the double nearest to it.
\<close>

record xy64 =
  x64 :: double
  y64 :: double

record rgba64 =
  r64 :: double
  g64 :: double
  b64 :: double
  a64 :: double

record particle64 =
  pos64 :: xy64
  size64 :: xy64
  color64 :: rgba64
  velocity64 :: xy64

definition default_step64 :: "particle64 \<Rightarrow> particle64" where
  "default_step64 p =
     p\<lparr>pos64 := \<lparr>x64 = dadd (x64 (pos64 p)) (x64 (velocity64 p)),
                  y64 = dadd (y64 (pos64 p)) (y64 (velocity64 p))\<rparr>,
       size64 := \<lparr>x64 = dmul (x64 (size64 p)) (round64 0.98),
                   y64 = dmul (y64 (size64 p)) (round64 0.98)\<rparr>\<rparr>"

definition fancy_step64 :: "particle64 \<Rightarrow> particle64" where
  "fancy_step64 p =
     p\<lparr>pos64 := \<lparr>x64 = dadd (x64 (pos64 p)) (x64 (velocity64 p)),
                  y64 = dadd (y64 (pos64 p)) (y64 (velocity64 p))\<rparr>,
       size64 := \<lparr>x64 = dmul (x64 (size64 p)) (round64 0.98),
                   y64 = dmul (y64 (size64 p)) (round64 0.98)\<rparr>,
       color64 := \<lparr>r64 = dmul (r64 (color64 p)) (round64 1.02),
                    g64 = dmul (g64 (color64 p)) (round64 0.98),
                    b64 = dmul (b64 (color64 p)) (round64 0.98),
                    a64 = dmul (a64 (color64 p)) (round64 0.99)\<rparr>\<rparr>"

fun animator_step64 :: "animator \<Rightarrow> particle64 \<Rightarrow> particle64" where
  "animator_step64 DefaultParticleAnimator p = default_step64 p"
| "animator_step64 FancyParticleAnimator p = fancy_step64 p"

definition animator_update64 :: "animator \<Rightarrow> particle64 list \<Rightarrow> particle64 list" where
  "animator_update64 a ps = map (animator_step64 a) ps"

section \<open>Examples\<close>

text \<open>
  A page with one canvas of the default size 300 by 150 under the id \<open>canvas\<close>, placed
  at (10, 10), a slot that is not a canvas, and a random sequence.
\<close>

definition example_canvas :: canvas_element where
  "example_canvas =
     \<lparr>canvas_width = 300, canvas_height = 150, offsetLeft = 10, offsetTop = 10,
      state = initial_drawstate, saved = [], painted = []\<rparr>"

text \<open>A surface of 200 by 100 at the same place.\<close>

definition example_surface :: canvas_element where
  "example_surface = example_canvas\<lparr>canvas_width := 200, canvas_height := 100\<rparr>"

definition example_document :: "string \<Rightarrow> element option" where
  "example_document = [''canvas'' \<mapsto> Canvas example_canvas, ''title'' \<mapsto> OtherElement]"

definition example_random :: "nat \<Rightarrow> real" where
  "example_random n = (if even n then 3 / 4 else 1 / 4)"

definition example_system :: world where
  "example_system = ParticleSystem None example_document 1280 720 example_random"

definition example_particle :: particle where
  "example_particle =
     \<lparr>pos = \<lparr>x_of = 150, y_of = 75\<rparr>, psize = \<lparr>x_of = 4, y_of = 2\<rparr>,
      color = \<lparr>r_of = 200, g_of = 100, b_of = 50, a_of = 1\<rparr>,
      velocity = \<lparr>x_of = 3, y_of = - 1\<rparr>\<rparr>"

text \<open>
  The system at its cap of two, with two particles that differ in size, on a surface of
  300 by 150.
\<close>

definition example_full :: world where
  "example_full =
     example_system\<lparr>maxParticles := 2, particleSpeed := 4, width := 300, height := 150,
       particles := [example_particle, example_particle\<lparr>psize := \<lparr>x_of = 9, y_of = 9\<rparr>\<rparr>]\<rparr>"

text \<open>The example particle with its numbers as doubles.\<close>

definition example_particle64 :: particle64 where
  "example_particle64 =
     \<lparr>pos64 = \<lparr>x64 = Finite 150, y64 = Finite 75\<rparr>,
      size64 = \<lparr>x64 = Finite 4, y64 = Finite 2\<rparr>,
      color64 = \<lparr>r64 = Finite 200, g64 = Finite 100, b64 = Finite 50, a64 = Finite 1\<rparr>,
      velocity64 = \<lparr>x64 = Finite 3, y64 = Finite (- 1)\<rparr>\<rparr>"

section \<open>The loops of update in closed form\<close>

lemma Particle_eq:
  "Particle (particleOrigin_var w) (particleSize w) (particleColor w) (particleSpeed w) w =
     (spawn_particle w 0, w\<lparr>random_calls := random_calls w + 2\<rparr>)"
  by (simp add: Particle_def Math_random_def spawn_particle_def Let_def)

lemma spawn_particle_shift:
  "spawn_particle (w\<lparr>random_calls := random_calls w + 2, particles := ps\<rparr>) =
     spawn_particle w \<circ> Suc"
  by (rule ext) (simp add: spawn_particle_def add.assoc)

text \<open>The spawn loop pushes one particle for each value of its counter below the rate.\<close>

lemma spawn_loop_eq:
  "spawn_loop i w =
     w\<lparr>particles := particles w @ map (spawn_particle w) [0 ..< nat (particlesPerUpdate w - i)],
       random_calls := random_calls w + 2 * nat (particlesPerUpdate w - i)\<rparr>"
proof (induction "nat (particlesPerUpdate w - i)" arbitrary: i w)
  case 0
  then show ?case by (subst spawn_loop.simps) simp
next
  case (Suc n)
  let ?w' = "w\<lparr>random_calls := random_calls w + 2, particles := particles w @ [spawn_particle w 0]\<rparr>"
  have lt: "i < particlesPerUpdate w" and n: "n = nat (particlesPerUpdate ?w' - (i + 1))"
    using Suc.hyps(2) by simp_all
  have "spawn_loop i w = spawn_loop (i + 1) ?w'"
    using lt by (subst spawn_loop.simps) (simp add: Particle_eq)
  also have "\<dots> = ?w'\<lparr>particles := particles ?w' @ map (spawn_particle ?w') [0 ..< n],
       random_calls := random_calls ?w' + 2 * n\<rparr>"
    using Suc.hyps(1) [OF n] n by simp
  also have "\<dots> = w\<lparr>particles := particles w @ map (spawn_particle w) [0 ..< Suc n],
       random_calls := random_calls w + 2 * Suc n\<rparr>"
    by (simp only: spawn_particle_shift upt_conv_Cons [of 0 "Suc n"] map_Suc_upt [symmetric])
      simp
  finally show ?case using Suc.hyps(2) by simp
qed

text \<open>With a cap that is not negative, the trimming loop ends and keeps the last entries.\<close>

lemma trim_loop_eq:
  "0 \<le> maxParticles w \<Longrightarrow>
   trim_loop w = Some (w\<lparr>particles := drop (length (particles w) - nat (maxParticles w)) (particles w)\<rparr>)"
proof (induction "length (particles w)" arbitrary: w)
  case 0
  then show ?case by (subst trim_loop.simps) simp
next
  case (Suc n)
  then obtain p ps where ps: "particles w = p # ps" by (cases "particles w") auto
  show ?case
  proof (cases "int (length (particles w)) > maxParticles w")
    case False
    then show ?thesis by (subst trim_loop.simps) simp
  next
    case True
    have "trim_loop w = trim_loop (w\<lparr>particles := ps\<rparr>)"
      using True ps by (subst trim_loop.simps) simp
    also have "\<dots> = Some (w\<lparr>particles := drop (length ps - nat (maxParticles w)) ps\<rparr>)"
      using Suc.hyps(1) [of "w\<lparr>particles := ps\<rparr>"] Suc.hyps(2) Suc.prems ps by simp
    also have "drop (length ps - nat (maxParticles w)) ps =
        drop (length (particles w) - nat (maxParticles w)) (particles w)"
      using True ps Suc.prems by (simp add: Suc_diff_le)
    finally show ?thesis .
  qed
qed

text \<open>With a negative cap it does not end.\<close>

lemma trim_loop_diverges:
  "maxParticles w < 0 \<Longrightarrow> trim_loop w = None"
proof -
  have "0 \<le> maxParticles w" if "trim_loop w = Some w'" for w'
  proof (rule trim_loop.raw_induct [where P = "\<lambda>w y. 0 \<le> maxParticles w", OF _ that])
    fix f w wa
    assume IH: "\<And>x y. f x = Some y \<Longrightarrow> 0 \<le> maxParticles x"
      and step: "(if maxParticles w < int (length (particles w))
                  then f (w\<lparr>particles := shift (particles w)\<rparr>) else Some w) = Some wa"
    show "0 \<le> maxParticles w"
    proof (cases "maxParticles w < int (length (particles w))")
      case True
      with step IH [of "w\<lparr>particles := shift (particles w)\<rparr>" wa] show ?thesis by simp
    next
      case False
      then show ?thesis by simp
    qed
  qed
  then show "maxParticles w < 0 \<Longrightarrow> trim_loop w = None"
    by (cases "trim_loop w") auto
qed

lemma trim_loop_step:
  assumes "0 \<le> maxParticles v" and "maxParticles v < int (length (particles v))"
  shows "\<exists>p ps. particles v = p # ps \<and> trim_loop v = trim_loop (v\<lparr>particles := ps\<rparr>)"
proof -
  obtain p ps where ps: "particles v = p # ps"
    using assms by (cases "particles v") auto
  have "trim_loop v = trim_loop (v\<lparr>particles := ps\<rparr>)"
    using assms(2) ps by (subst trim_loop.simps) simp
  with ps show ?thesis by blast
qed

lemma trim_loop_stop:
  assumes "int (length (particles v)) \<le> maxParticles v"
  shows "trim_loop v = Some v"
  using assms by (subst trim_loop.simps) simp

lemma spawned_eq:
  "spawned w =
     w\<lparr>particles := animator_update (particleAnimator w) (particles w) @
                     map (spawn_particle (with_origin w)) [0 ..< nat (particlesPerUpdate w)],
       particleOrigin_var := \<lparr>x_of = width w * x_of (particleOrigin w),
                               y_of = height w * y_of (particleOrigin w)\<rparr>,
       random_calls := random_calls w + 2 * nat (particlesPerUpdate w)\<rparr>"
proof -
  have sp: "spawn_particle (with_origin (aged w)) = spawn_particle (with_origin w)"
    by (rule ext) (simp add: spawn_particle_def with_origin_def aged_def)
  show ?thesis
    unfolding spawned_def spawn_loop_eq sp
    by (simp add: with_origin_def aged_def)
qed

lemma spawned_particles:
  "particles (spawned w) =
     animator_update (particleAnimator w) (particles w) @
     map (spawn_particle (with_origin w)) [0 ..< nat (particlesPerUpdate w)]"
  by (simp add: spawned_eq)

lemma update_eq:
  assumes "0 \<le> maxParticles w"
  shows "update w =
     Some (w\<lparr>particles :=
              drop (length (particles w) + nat (particlesPerUpdate w) - nat (maxParticles w))
                (animator_update (particleAnimator w) (particles w) @
                 map (spawn_particle (with_origin w)) [0 ..< nat (particlesPerUpdate w)]),
             particleOrigin_var := \<lparr>x_of = width w * x_of (particleOrigin w),
                                     y_of = height w * y_of (particleOrigin w)\<rparr>,
             random_calls := random_calls w + 2 * nat (particlesPerUpdate w)\<rparr>)"
proof -
  have m: "0 \<le> maxParticles (spawned w)"
    using assms by (simp add: spawned_eq)
  show ?thesis
    unfolding update_def trim_loop_eq [OF m]
    by (simp add: spawned_eq animator_update_def)
qed

lemma update_diverges: "maxParticles w < 0 \<Longrightarrow> update w = None"
  unfolding update_def by (rule trim_loop_diverges) (simp add: spawned_eq)

lemma update_length:
  assumes "0 \<le> maxParticles w"
  shows "\<exists>w'. update w = Some w' \<and>
           length (particles w') =
             min (length (particles w) + nat (particlesPerUpdate w)) (nat (maxParticles w)) \<and>
           maxParticles w' = maxParticles w \<and> particlesPerUpdate w' = particlesPerUpdate w"
  unfolding update_eq [OF assms]
  by (auto simp add: animator_update_def simp del: drop_append)

lemma update_particles:
  assumes "0 \<le> maxParticles w"
  shows "\<exists>w'. update w = Some w' \<and>
           particles w' =
             drop (length (particles w) + nat (particlesPerUpdate w) - nat (maxParticles w))
               (animator_update (particleAnimator w) (particles w) @
                map (spawn_particle (with_origin w)) [0 ..< nat (particlesPerUpdate w)]) \<and>
           particleOrigin_var w' = \<lparr>x_of = width w * x_of (particleOrigin w),
                                     y_of = height w * y_of (particleOrigin w)\<rparr>"
  unfolding update_eq [OF assms] by simp

section \<open>Population: count, cap and eviction order\<close>

lemma update_n_count:
  assumes "0 \<le> particlesPerUpdate w" and "0 \<le> maxParticles w"
    and "int (length (particles w)) \<le> maxParticles w"
  shows "\<exists>w'. update_n n w = Some w' \<and>
           int (length (particles w')) =
             min (int (length (particles w)) + int n * particlesPerUpdate w) (maxParticles w)"
  using assms
proof (induction n arbitrary: w)
  case 0
  then show ?case by simp
next
  case (Suc n)
  obtain w1 where u: "update w = Some w1"
    and l1: "length (particles w1) =
               min (length (particles w) + nat (particlesPerUpdate w)) (nat (maxParticles w))"
    and m1: "maxParticles w1 = maxParticles w"
    and p1: "particlesPerUpdate w1 = particlesPerUpdate w"
    using update_length [OF Suc.prems(2)] by blast
  have len: "int (length (particles w1)) =
      min (int (length (particles w)) + particlesPerUpdate w) (maxParticles w)"
    using Suc.prems(1,2) unfolding l1 by linarith
  have "int (length (particles w1)) \<le> maxParticles w1"
    unfolding len m1 by simp
  then obtain w' where w': "update_n n w1 = Some w'"
    and l': "int (length (particles w')) =
       min (int (length (particles w1)) + int n * particlesPerUpdate w1) (maxParticles w1)"
    using Suc.IH [of w1] Suc.prems(1,2) m1 p1 by auto
  have nn: "0 \<le> int n * particlesPerUpdate w"
    using Suc.prems(1) by simp
  have "int (length (particles w')) =
        min (int (length (particles w)) + int (Suc n) * particlesPerUpdate w) (maxParticles w)"
    unfolding l' len m1 p1 using nn by (simp add: algebra_simps)
  with u w' show ?case by simp
qed

text \<open>
  C1. From an empty particle collection, with a spawn rate and a cap that are not
  negative, \<open>n\<close> calls of \<open>update()\<close> in a row all return, and the number of live
  particles is then \<open>min (n * particlesPerUpdate) maxParticles\<close>.
\<close>

theorem update_n_particle_count:
  assumes "particles w = []" and "0 \<le> particlesPerUpdate w" and "0 \<le> maxParticles w"
  shows "\<exists>w'. update_n n w = Some w' \<and>
           int (length (particles w')) = min (int n * particlesPerUpdate w) (maxParticles w)"
  using update_n_count [of w n] assms by simp

theorem update_n_particle_count_witness:
  "\<exists>w'. update_n 2 (example_system\<lparr>maxParticles := 3, particlesPerUpdate := 2\<rparr>) = Some w' \<and>
        int (length (particles w')) = 3"
  using update_n_particle_count [of "example_system\<lparr>maxParticles := 3, particlesPerUpdate := 2\<rparr>" 2]
  by (simp add: example_system_def ParticleSystem_def)

text \<open>
  C2. In every state whose cap is not negative, \<open>update()\<close> returns and leaves at most
  \<open>maxParticles\<close> live particles. The spawn loop itself does not look at the cap: after
  it the collection holds all old particles and the whole batch, and only the trimming
  loop that follows brings the count down.
\<close>

theorem update_respects_cap:
  assumes "0 \<le> maxParticles w"
  shows "\<exists>w'. update w = Some w' \<and>
           int (length (particles w')) \<le> maxParticles w' \<and>
           maxParticles w' = maxParticles w \<and>
           maxParticles (spawned w) = maxParticles w \<and>
           length (particles (spawned w)) = length (particles w) + nat (particlesPerUpdate w)"
proof -
  obtain w' where u: "update w = Some w'"
    and l: "length (particles w') =
              min (length (particles w) + nat (particlesPerUpdate w)) (nat (maxParticles w))"
    and m: "maxParticles w' = maxParticles w"
    using update_length [OF assms] by blast
  have "int (length (particles w')) \<le> maxParticles w'"
    unfolding l m using assms by linarith
  moreover have "length (particles (spawned w)) = length (particles w) + nat (particlesPerUpdate w)"
    by (simp add: spawned_particles animator_update_def)
  moreover have "maxParticles (spawned w) = maxParticles w"
    by (simp add: spawned_eq)
  ultimately show ?thesis using u m by simp
qed

theorem update_respects_cap_witness:
  "\<exists>w'. update (example_system\<lparr>maxParticles := 2, particlesPerUpdate := 5\<rparr>) = Some w' \<and>
        int (length (particles w')) \<le> 2 \<and>
        length (particles (spawned (example_system\<lparr>maxParticles := 2, particlesPerUpdate := 5\<rparr>))) = 5"
  using update_respects_cap [of "example_system\<lparr>maxParticles := 2, particlesPerUpdate := 5\<rparr>"]
  by (auto simp add: example_system_def ParticleSystem_def)

lemma update_n_Suc_end:
  "update_n (Suc n) w = (case update_n n w of None \<Rightarrow> None | Some w' \<Rightarrow> update w')"
proof (induction n arbitrary: w)
  case 0
  show ?case by (simp split: option.splits)
next
  case (Suc n)
  show ?case
  proof (cases "update w")
    case None
    then show ?thesis by simp
  next
    case (Some w1)
    have "update_n (Suc (Suc n)) w = update_n (Suc n) w1"
      using Some by simp
    also have "\<dots> = (case update_n n w1 of None \<Rightarrow> None | Some w' \<Rightarrow> update w')"
      by (rule Suc.IH)
    also have "update_n n w1 = update_n (Suc n) w"
      using Some by simp
    finally show ?thesis .
  qed
qed

lemma drop_map_upt: "drop k (map f [lo ..< hi]) = map f [lo + k ..< hi]"
  by (simp add: drop_map drop_upt)

lemma live_range:
  fixes n p m :: nat
  shows "n * p - min (n * p) m + (min (n * p) m + p - m) = Suc n * p - min (Suc n * p) m"
  by (auto simp: min_def algebra_simps)

text \<open>
  The collection after \<open>n\<close> calls of \<open>update()\<close> from an empty one, the configuration
  unchanged. Number the particles in the order of their construction, from 0: the
  \<open>j\<close>-th is \<open>spawn_particle (with_origin w) j\<close>, made in call number
  \<open>j div particlesPerUpdate\<close>. The collection holds the last
  \<open>min (n * particlesPerUpdate) maxParticles\<close> of the \<open>n * particlesPerUpdate\<close>
  particles made so far, in the order of their numbers, each aged once by every call
  after the one that made it.
\<close>

lemma update_n_live:
  assumes e: "particles w = []" and p0: "0 \<le> particlesPerUpdate w" and m0: "0 \<le> maxParticles w"
  shows "update_n n w =
     Some (w\<lparr>particles :=
              map (\<lambda>j. (animator_step (particleAnimator w) ^^ (n - 1 - j div nat (particlesPerUpdate w)))
                         (spawn_particle (with_origin w) j))
                [n * nat (particlesPerUpdate w)
                   - min (n * nat (particlesPerUpdate w)) (nat (maxParticles w))
                 ..< n * nat (particlesPerUpdate w)],
             particleOrigin_var :=
               (if n = 0 then particleOrigin_var w
                else \<lparr>x_of = width w * x_of (particleOrigin w),
                      y_of = height w * y_of (particleOrigin w)\<rparr>),
             random_calls := random_calls w + 2 * (n * nat (particlesPerUpdate w))\<rparr>)"
proof (induction n)
  case 0
  show ?case using e by simp
next
  case (Suc n)
  define p where "p = nat (particlesPerUpdate w)"
  define m where "m = nat (maxParticles w)"
  define st where "st = animator_step (particleAnimator w)"
  define F where "F = (\<lambda>n j. (st ^^ (n - 1 - j div p)) (spawn_particle (with_origin w) j))"
  define lo where "lo = (\<lambda>n. n * p - min (n * p) m)"
  define wn where "wn = w\<lparr>particles := map (F n) [lo n ..< n * p],
             particleOrigin_var :=
               (if n = 0 then particleOrigin_var w
                else \<lparr>x_of = width w * x_of (particleOrigin w),
                      y_of = height w * y_of (particleOrigin w)\<rparr>),
             random_calls := random_calls w + 2 * (n * p)\<rparr>"
  have IH: "update_n n w = Some wn"
    using Suc.IH by (simp add: wn_def F_def lo_def p_def m_def st_def)
  have mw: "0 \<le> maxParticles wn"
    using m0 by (simp add: wn_def)
  have len: "length (particles wn) = min (n * p) m"
    by (simp add: wn_def lo_def)
  have old: "animator_update (particleAnimator wn) (particles wn) = map (F (Suc n)) [lo n ..< n * p]"
  proof -
    have "st (F n j) = F (Suc n) j" if "j < n * p" for j
    proof -
      have "0 < p" using that by (cases p) simp_all
      then have "j div p < n" using that by (simp add: less_mult_imp_div_less)
      then have "Suc n - 1 - j div p = Suc (n - 1 - j div p)" by simp
      then show ?thesis by (simp add: F_def)
    qed
    then show ?thesis
      by (simp add: wn_def animator_update_def st_def)
  qed
  have new: "map (spawn_particle (with_origin wn)) [0 ..< nat (particlesPerUpdate wn)] =
      map (F (Suc n)) [n * p ..< Suc n * p]"
  proof -
    have sp: "spawn_particle (with_origin wn) i = spawn_particle (with_origin w) (n * p + i)" for i
      by (simp add: wn_def spawn_particle_def with_origin_def algebra_simps)
    have "F (Suc n) (n * p + i) = spawn_particle (with_origin w) (n * p + i)" if "i < p" for i
      using that by (simp add: F_def)
    then have "map (spawn_particle (with_origin wn)) [0 ..< p] =
        map (\<lambda>i. F (Suc n) (n * p + i)) [0 ..< p]"
      by (simp add: sp)
    also have "\<dots> = map (F (Suc n)) (map (\<lambda>i. n * p + i) [0 ..< p])"
      by (simp add: comp_def)
    also have "map (\<lambda>i. n * p + i) [0 ..< p] = [n * p ..< Suc n * p]"
      by (simp add: map_add_upt add.commute)
    finally show ?thesis by (simp add: wn_def p_def)
  qed
  have cat: "map (F (Suc n)) [lo n ..< n * p] @ map (F (Suc n)) [n * p ..< Suc n * p] =
      map (F (Suc n)) [lo n ..< Suc n * p]"
  proof -
    have "lo n \<le> n * p" by (simp add: lo_def)
    then have "[lo n ..< Suc n * p] = [lo n ..< n * p] @ [n * p ..< Suc n * p]"
      using upt_add_eq_append [of "lo n" "n * p" p] by (simp add: add.commute)
    then show ?thesis by simp
  qed
  have rng: "lo n + (min (n * p) m + p - m) = lo (Suc n)"
    unfolding lo_def by (rule live_range)
  have k: "length (particles wn) + nat (particlesPerUpdate wn) - nat (maxParticles wn) =
      min (n * p) m + p - m"
    by (simp add: len) (simp add: wn_def p_def m_def)
  have "update wn =
     Some (wn\<lparr>particles := map (F (Suc n)) [lo (Suc n) ..< Suc n * p],
              particleOrigin_var := \<lparr>x_of = width w * x_of (particleOrigin w),
                                      y_of = height w * y_of (particleOrigin w)\<rparr>,
              random_calls := random_calls w + 2 * (Suc n * p)\<rparr>)"
    unfolding update_eq [OF mw] k old new cat drop_map_upt rng
    by (simp add: wn_def p_def)
  then have "update_n (Suc n) w =
     Some (w\<lparr>particles := map (F (Suc n)) [lo (Suc n) ..< Suc n * p],
              particleOrigin_var := \<lparr>x_of = width w * x_of (particleOrigin w),
                                      y_of = height w * y_of (particleOrigin w)\<rparr>,
              random_calls := random_calls w + 2 * (Suc n * p)\<rparr>)"
    unfolding update_n_Suc_end IH by (simp add: wn_def)
  then show ?case
    by (simp add: F_def lo_def p_def m_def st_def)
qed

text \<open>
  C3. The collection is kept in spawn order: \<open>update()\<close> ages the old particles where
  they stand and appends the new ones behind them. With a cap that is not negative it
  then drops a prefix of that list, as long as the excess over the cap, so what goes is
  what was spawned first; each round of the trimming loop removes the head, and the loop
  removes nothing once the length is within the cap. Nothing else shortens the list.
  Over \<open>n\<close> calls from an empty collection the live particles are therefore, by their
  number in the order of construction, exactly the last
  \<open>min (n * particlesPerUpdate) maxParticles\<close> made: every evicted particle was
  spawned before every live one.
\<close>

theorem update_evicts_oldest_first:
  assumes "0 \<le> maxParticles w"
  shows "(\<exists>w'. update w = Some w' \<and>
            particles w' =
              drop (length (particles (spawned w)) - nat (maxParticles w)) (particles (spawned w))) \<and>
         particles (spawned w) =
           map (animator_step (particleAnimator w)) (particles w) @
           map (spawn_particle (with_origin w)) [0 ..< nat (particlesPerUpdate w)] \<and>
         (\<forall>v. 0 \<le> maxParticles v \<and> maxParticles v < int (length (particles v)) \<longrightarrow>
              (\<exists>p ps. particles v = p # ps \<and> trim_loop v = trim_loop (v\<lparr>particles := ps\<rparr>))) \<and>
         (\<forall>v. int (length (particles v)) \<le> maxParticles v \<longrightarrow> trim_loop v = Some v) \<and>
         (particles w = [] \<and> 0 \<le> particlesPerUpdate w \<longrightarrow>
            (\<exists>w'. update_n n w = Some w' \<and>
               particles w' =
                 map (\<lambda>j. (animator_step (particleAnimator w)
                             ^^ (n - 1 - j div nat (particlesPerUpdate w)))
                            (spawn_particle (with_origin w) j))
                   [n * nat (particlesPerUpdate w)
                      - min (n * nat (particlesPerUpdate w)) (nat (maxParticles w))
                    ..< n * nat (particlesPerUpdate w)]))"
proof -
  have m: "0 \<le> maxParticles (spawned w)"
    using assms by (simp add: spawned_eq)
  have "update w =
      Some ((spawned w)\<lparr>particles :=
              drop (length (particles (spawned w)) - nat (maxParticles (spawned w)))
                (particles (spawned w))\<rparr>)"
    unfolding update_def by (rule trim_loop_eq [OF m])
  moreover have "maxParticles (spawned w) = maxParticles w"
    by (simp add: spawned_eq)
  ultimately have one: "\<exists>w'. update w = Some w' \<and>
            particles w' =
              drop (length (particles (spawned w)) - nat (maxParticles w)) (particles (spawned w))"
    by simp
  have order: "particles (spawned w) =
           map (animator_step (particleAnimator w)) (particles w) @
           map (spawn_particle (with_origin w)) [0 ..< nat (particlesPerUpdate w)]"
    by (simp add: spawned_particles animator_update_def)
  have many: "\<exists>w'. update_n n w = Some w' \<and>
               particles w' =
                 map (\<lambda>j. (animator_step (particleAnimator w)
                             ^^ (n - 1 - j div nat (particlesPerUpdate w)))
                            (spawn_particle (with_origin w) j))
                   [n * nat (particlesPerUpdate w)
                      - min (n * nat (particlesPerUpdate w)) (nat (maxParticles w))
                    ..< n * nat (particlesPerUpdate w)]"
    if "particles w = []" and "0 \<le> particlesPerUpdate w"
    unfolding update_n_live [OF that assms] by simp
  from one order many show ?thesis
    using trim_loop_step trim_loop_stop by blast
qed

theorem update_evicts_oldest_first_witness:
  "(\<exists>w'. update example_full = Some w' \<and>
        particles w' =
          [default_step (example_particle\<lparr>psize := \<lparr>x_of = 9, y_of = 9\<rparr>\<rparr>),
           spawn_particle (with_origin example_full) 0]) \<and>
   (\<exists>w'. update_n 3 (example_system\<lparr>maxParticles := 2\<rparr>) = Some w' \<and>
        particles w' =
          [default_step (spawn_particle (with_origin (example_system\<lparr>maxParticles := 2\<rparr>)) 1),
           spawn_particle (with_origin (example_system\<lparr>maxParticles := 2\<rparr>)) 2])"
proof -
  have m: "0 \<le> maxParticles example_full"
    by (simp add: example_full_def)
  have f: "maxParticles example_full = 2" "particlesPerUpdate example_full = 1"
    "particleAnimator example_full = DefaultParticleAnimator"
    "particles example_full =
       [example_particle, example_particle\<lparr>psize := \<lparr>x_of = 9, y_of = 9\<rparr>\<rparr>]"
    by (simp_all add: example_full_def example_system_def ParticleSystem_def)
  obtain w' where u: "update example_full = Some w'"
    and p: "particles w' =
      drop (length (particles (spawned example_full)) - nat (maxParticles example_full))
        (particles (spawned example_full))"
    and s: "particles (spawned example_full) =
           map (animator_step (particleAnimator example_full)) (particles example_full) @
           map (spawn_particle (with_origin example_full))
             [0 ..< nat (particlesPerUpdate example_full)]"
    using update_evicts_oldest_first [OF m] by blast
  have c: "particles w' =
          [default_step (example_particle\<lparr>psize := \<lparr>x_of = 9, y_of = 9\<rparr>\<rparr>),
           spawn_particle (with_origin example_full) 0]"
    unfolding p s f by simp
  have one: "\<exists>w'. update example_full = Some w' \<and>
        particles w' =
          [default_step (example_particle\<lparr>psize := \<lparr>x_of = 9, y_of = 9\<rparr>\<rparr>),
           spawn_particle (with_origin example_full) 0]"
    by (rule exI [of _ w']) (rule conjI [OF u c])
  let ?e = "example_system\<lparr>maxParticles := 2\<rparr>"
  have g: "0 \<le> maxParticles ?e" "particles ?e = [] \<and> 0 \<le> particlesPerUpdate ?e"
    by (simp_all add: example_system_def ParticleSystem_def)
  have h: "maxParticles ?e = 2" "particlesPerUpdate ?e = 1"
    "particleAnimator ?e = DefaultParticleAnimator"
    by (simp_all add: example_system_def ParticleSystem_def)
  obtain w3 where u3: "update_n 3 ?e = Some w3"
    and p3: "particles w3 =
                 map (\<lambda>j. (animator_step (particleAnimator ?e)
                             ^^ (3 - 1 - j div nat (particlesPerUpdate ?e)))
                            (spawn_particle (with_origin ?e) j))
                   [3 * nat (particlesPerUpdate ?e)
                      - min (3 * nat (particlesPerUpdate ?e)) (nat (maxParticles ?e))
                    ..< 3 * nat (particlesPerUpdate ?e)]"
    using update_evicts_oldest_first [OF g(1), of 3] g(2) by blast
  have r: "[Suc 0 ..< 3] = [Suc 0, 2]"
    by code_simp
  have c3: "particles w3 =
          [default_step (spawn_particle (with_origin ?e) 1), spawn_particle (with_origin ?e) 2]"
    unfolding p3 h by (simp add: r)
  have many: "\<exists>w'. update_n 3 ?e = Some w' \<and>
        particles w' =
          [default_step (spawn_particle (with_origin ?e) 1), spawn_particle (with_origin ?e) 2]"
    by (rule exI [of _ w3]) (rule conjI [OF u3 c3])
  from one many show ?thesis by (rule conjI)
qed

section \<open>The animators\<close>

text \<open>
  C10. The update step of the default animator leaves the colour of every particle of
  the collection as it is, all four channels.
\<close>

theorem default_animator_keeps_color:
  "map color (animator_update DefaultParticleAnimator ps) = map color ps"
  by (simp add: animator_update_def default_step_def)

section \<open>Double precision: rounding, and what the animators compute\<close>

text \<open>Rounding to an integer moves a number by at most a half.\<close>

lemma round_even_error: "\<bar>of_int (round_even y) - y\<bar> \<le> 1 / 2"
  unfolding round_even_def Let_def by (auto simp: abs_le_iff)

text \<open>\<open>binade\<close> is the binary exponent, and the only one.\<close>

lemma binade_bounds:
  assumes "x \<noteq> 0"
  shows "2 powi (binade x) \<le> \<bar>x\<bar>" and "\<bar>x\<bar> < 2 powi (binade x + 1)"
proof -
  have "2 powi (binade x) \<le> \<bar>x\<bar> \<and> \<bar>x\<bar> < 2 powi (binade x + 1)"
  proof (cases "1 \<le> \<bar>x\<bar>")
    case True
    define n where "n = \<lfloor>\<bar>x\<bar>\<rfloor>"
    have n: "0 < n" using True by (simp add: n_def)
    have b: "2 ^ nat (bitlen n - 1) \<le> n" "n < 2 ^ nat (bitlen n)"
      using bitlen_bounds [OF n] by simp_all
    have b1: "1 \<le> bitlen n"
      using n by (simp add: bitlen_alt_def)
    have e: "binade x = bitlen n - 1"
      using True by (simp add: binade_def n_def)
    have lo: "(2::real) powi (bitlen n - 1) = of_int (2 ^ nat (bitlen n - 1))"
      using b1 by (simp add: power_int_def)
    have hi: "(2::real) powi (bitlen n - 1 + 1) = of_int (2 ^ nat (bitlen n))"
      using b1 by (simp add: power_int_def)
    have "of_int n \<le> \<bar>x\<bar>" "\<bar>x\<bar> < of_int n + 1"
      by (simp_all add: n_def)
    moreover have "of_int (2 ^ nat (bitlen n - 1)) \<le> (of_int n :: real)"
      using b(1) by (simp only: of_int_le_iff)
    moreover have "(of_int n :: real) + 1 \<le> of_int (2 ^ nat (bitlen n))"
    proof -
      have "n + 1 \<le> 2 ^ nat (bitlen n)" using b(2) by simp
      then have "(of_int (n + 1) :: real) \<le> of_int (2 ^ nat (bitlen n))"
        by (simp only: of_int_le_iff)
      then show ?thesis by simp
    qed
    ultimately show ?thesis
      unfolding e lo hi by linarith
  next
    case False
    define y where "y = 1 / \<bar>x\<bar>"
    define N where "N = \<lceil>y\<rceil>"
    have x: "0 < \<bar>x\<bar>" "\<bar>x\<bar> < 1" using assms False by simp_all
    have y: "1 < y" using x by (simp add: y_def)
    have N: "0 < N - 1"
      using y by (simp add: N_def less_ceiling_iff)
    define j where "j = bitlen (N - 1)"
    have b: "2 ^ nat (j - 1) \<le> N - 1" "N - 1 < 2 ^ nat j"
      using bitlen_bounds [OF N] by (simp_all add: j_def)
    have j1: "1 \<le> j"
      using N by (simp add: j_def bitlen_alt_def)
    have e: "binade x = - j"
      using False by (simp add: binade_def j_def N_def y_def)
    have yN: "y \<le> of_int N" "of_int N - 1 < y"
      by (simp_all add: N_def) linarith
    have up: "y \<le> 2 ^ nat j"
    proof -
      have "N \<le> 2 ^ nat j" using b(2) by simp
      then have "(of_int N :: real) \<le> of_int (2 ^ nat j)" by (simp only: of_int_le_iff)
      also have "(of_int (2 ^ nat j) :: real) = 2 ^ nat j" by simp
      finally show ?thesis using yN(1) by linarith
    qed
    have dn: "2 ^ nat (j - 1) < y"
    proof -
      have "(of_int (2 ^ nat (j - 1)) :: real) \<le> of_int (N - 1)"
        using b(1) by (simp only: of_int_le_iff)
      moreover have "(of_int (2 ^ nat (j - 1)) :: real) = 2 ^ nat (j - 1)" by simp
      moreover have "(of_int (N - 1) :: real) = of_int N - 1" by simp
      ultimately show ?thesis using yN(2) by linarith
    qed
    have p1: "(2::real) powi (- j) = 1 / 2 ^ nat j"
      using j1 by (simp add: power_int_def field_simps)
    have p2: "(2::real) powi (- j + 1) = 1 / 2 ^ nat (j - 1)"
    proof -
      have "- j + 1 = - (j - 1)" by simp
      then have "(2::real) powi (- j + 1) = 2 powi (- (j - 1))" by simp
      also have "\<dots> = inverse (2 powi (j - 1))" by (rule power_int_minus)
      also have "(2::real) powi (j - 1) = 2 ^ nat (j - 1)"
        using j1 by (simp add: power_int_def)
      finally show ?thesis by (simp add: field_simps)
    qed
    have "1 / 2 ^ nat j \<le> \<bar>x\<bar>"
    proof -
      have "1 / 2 ^ nat j \<le> 1 / y"
        using up y by (intro divide_left_mono) simp_all
      then show ?thesis by (simp add: y_def)
    qed
    moreover have "\<bar>x\<bar> < 1 / 2 ^ nat (j - 1)"
    proof -
      have "1 / y < 1 / 2 ^ nat (j - 1)"
        using dn y by (intro divide_strict_left_mono) simp_all
      then show ?thesis by (simp add: y_def)
    qed
    ultimately show ?thesis
      unfolding e p1 p2 by simp
  qed
  then show "2 powi (binade x) \<le> \<bar>x\<bar>" and "\<bar>x\<bar> < 2 powi (binade x + 1)"
    by simp_all
qed

lemma power_int_2_less_cancel:
  assumes "(2::real) powi m < 2 powi n"
  shows "m < n"
proof (rule ccontr)
  assume "\<not> m < n"
  then have "n \<le> m" by simp
  then have "(2::real) powi n \<le> 2 powi m"
    by (rule power_int_increasing) simp
  with assms show False by simp
qed

lemma binade_unique:
  assumes "2 powi e \<le> \<bar>x\<bar>" and "\<bar>x\<bar> < 2 powi (e + 1)"
  shows "binade x = e"
proof -
  have p: "(0::real) < 2 powi e" by simp
  have "0 < \<bar>x\<bar>" using p assms(1) by (rule less_le_trans)
  then have x: "x \<noteq> 0" by simp
  have "(2::real) powi (binade x) < 2 powi (e + 1)"
    using binade_bounds(1) [OF x] assms(2) by linarith
  then have "binade x < e + 1"
    by (rule power_int_2_less_cancel)
  moreover have "(2::real) powi e < 2 powi (binade x + 1)"
    using binade_bounds(2) [OF x] assms(1) by linarith
  then have "e < binade x + 1"
    by (rule power_int_2_less_cancel)
  ultimately show ?thesis by simp
qed

text \<open>Evaluation of the rounding at a number whose binade is known.\<close>

lemma nearest_eval:
  assumes "2 powi e \<le> \<bar>x\<bar>" and "\<bar>x\<bar> < 2 powi (e + 1)" and "- 1022 \<le> e"
    and "round_even (x * 2 powi (52 - e)) = m"
  shows "nearest x = of_int m * 2 powi (e - 52)"
proof -
  have p: "(0::real) < 2 powi e" by simp
  have "0 < \<bar>x\<bar>" using p assms(1) by (rule less_le_trans)
  then have x: "x \<noteq> 0" by simp
  have u: "ulp x = 2 powi (e - 52)"
    using binade_unique [OF assms(1,2)] assms(3) by (simp add: ulp_def)
  have "x / 2 powi (e - 52) = x * 2 powi (52 - e)"
  proof -
    have "52 - e = - (e - 52)" by simp
    then have "(2::real) powi (52 - e) = inverse (2 powi (e - 52))"
      by (simp only: power_int_minus)
    then show ?thesis by (simp add: field_simps)
  qed
  then show ?thesis
    using x assms(4) by (simp add: nearest_def u)
qed

lemma round64_eval:
  assumes "2 powi e \<le> \<bar>x\<bar>" and "\<bar>x\<bar> < 2 powi (e + 1)" and "- 1022 \<le> e"
    and "round_even (x * 2 powi (52 - e)) = m"
    and "\<bar>of_int m * 2 powi (e - 52)\<bar> < (2::real) ^ 1024"
  shows "round64 x = Finite (of_int m * 2 powi (e - 52))"
  using assms(5) unfolding round64_def nearest_eval [OF assms(1-4)] Let_def
  by (simp add: abs_less_iff)

lemma ulp_pos: "0 < ulp x"
  by (simp add: ulp_def)

text \<open>
  One rounding moves a number by at most half the spacing of the doubles around it, which
  in the normal range is at most \<open>unit_roundoff\<close> times its magnitude.
\<close>

lemma nearest_error: "\<bar>nearest x - x\<bar> \<le> ulp x / 2"
proof (cases "x = 0")
  case True
  then show ?thesis using ulp_pos [of x] by (simp add: nearest_def)
next
  case False
  have "\<bar>of_int (round_even (x / ulp x)) - x / ulp x\<bar> * ulp x \<le> 1 / 2 * ulp x"
    using round_even_error [of "x / ulp x"] ulp_pos [of x] by (intro mult_right_mono) simp_all
  moreover have "\<bar>of_int (round_even (x / ulp x)) - x / ulp x\<bar> * ulp x =
      \<bar>of_int (round_even (x / ulp x)) * ulp x - x\<bar>"
  proof -
    have "\<bar>of_int (round_even (x / ulp x)) - x / ulp x\<bar> * ulp x =
        \<bar>(of_int (round_even (x / ulp x)) - x / ulp x) * ulp x\<bar>"
      using ulp_pos [of x] by (simp add: abs_mult)
    also have "(of_int (round_even (x / ulp x)) - x / ulp x) * ulp x =
        of_int (round_even (x / ulp x)) * ulp x - x"
      using ulp_pos [of x] by (simp add: left_diff_distrib)
    finally show ?thesis .
  qed
  ultimately show ?thesis using False by (simp add: nearest_def)
qed

lemma ulp_normal:
  assumes "2 powi (- 1022) \<le> \<bar>x\<bar>"
  shows "ulp x \<le> \<bar>x\<bar> / 2 ^ 52"
proof -
  have p: "(0::real) < 2 powi (- 1022)" by simp
  have "0 < \<bar>x\<bar>" using p assms by (rule less_le_trans)
  then have x: "x \<noteq> 0" by simp
  have "2 powi (max (binade x) (- 1022)) \<le> \<bar>x\<bar>"
    using binade_bounds(1) [OF x] assms by (simp add: max_def)
  moreover have "ulp x = 2 powi (max (binade x) (- 1022)) / 2 ^ 52"
    unfolding ulp_def by (subst power_int_diff) simp_all
  ultimately show ?thesis by (simp add: divide_right_mono)
qed

lemma nearest_relative:
  assumes "2 powi (- 1022) \<le> \<bar>x\<bar>"
  shows "\<bar>nearest x - x\<bar> \<le> unit_roundoff * \<bar>x\<bar>"
proof -
  have "\<bar>nearest x - x\<bar> \<le> ulp x / 2" by (rule nearest_error)
  also have "\<dots> \<le> \<bar>x\<bar> / 2 ^ 52 / 2"
    using ulp_normal [OF assms] by simp
  also have "\<dots> = unit_roundoff * \<bar>x\<bar>"
    by (simp add: unit_roundoff_def)
  finally show ?thesis .
qed

lemma round64_normal:
  assumes "2 powi (- 1022) \<le> \<bar>x\<bar>" and "\<bar>x\<bar> * (1 + unit_roundoff) < 2 ^ 1024"
  shows "\<exists>r. round64 x = Finite r \<and> (1 - unit_roundoff) * \<bar>x\<bar> \<le> \<bar>r\<bar> \<and>
           \<bar>r\<bar> \<le> (1 + unit_roundoff) * \<bar>x\<bar>"
proof -
  have e: "\<bar>nearest x - x\<bar> \<le> unit_roundoff * \<bar>x\<bar>"
    by (rule nearest_relative [OF assms(1)])
  have lo: "(1 - unit_roundoff) * \<bar>x\<bar> \<le> \<bar>nearest x\<bar>"
    using e by (simp add: algebra_simps; linarith)
  have hi: "\<bar>nearest x\<bar> \<le> (1 + unit_roundoff) * \<bar>x\<bar>"
    using e by (simp add: algebra_simps; linarith)
  have "\<bar>nearest x\<bar> < 2 ^ 1024"
    using hi assms(2) by (simp add: mult.commute)
  then have "round64 x = Finite (nearest x)"
    unfolding round64_def Let_def by (simp add: abs_less_iff)
  with lo hi show ?thesis by blast
qed

lemma unit_roundoff_bounds: "0 < unit_roundoff" "unit_roundoff < 1"
  by (simp_all add: unit_roundoff_def)

text \<open>
  \<open>k\<close> successive products with the double nearest to \<open>q\<close>, each rounded: as long as
  every product stays in the normal range, the result is finite and each step has moved
  the magnitude by a factor between \<open>q (1 - unit_roundoff)\<^sup>2\<close> and
  \<open>q (1 + unit_roundoff)\<^sup>2\<close>.
\<close>

lemma iterate_dmul:
  fixes q c s0 :: real
  assumes c: "round64 q = Finite c" and cl: "(1 - unit_roundoff) * q \<le> c"
    and cu: "c \<le> (1 + unit_roundoff) * q" and q: "0 < q"
    and r: "\<And>i. 1 \<le> i \<Longrightarrow> i \<le> k \<Longrightarrow>
              2 powi (- 1022) \<le> \<bar>s0\<bar> * q ^ i * (1 - unit_roundoff) ^ (2 * i) \<and>
              \<bar>s0\<bar> * q ^ i * (1 + unit_roundoff) ^ (2 * i) < 2 ^ 1024"
  shows "\<exists>s. ((\<lambda>s. dmul s (round64 q)) ^^ k) (Finite s0) = Finite s \<and>
           \<bar>s0\<bar> * q ^ k * (1 - unit_roundoff) ^ (2 * k) \<le> \<bar>s\<bar> \<and>
           \<bar>s\<bar> \<le> \<bar>s0\<bar> * q ^ k * (1 + unit_roundoff) ^ (2 * k)"
  using r
proof (induction k)
  case 0
  then show ?case by simp
next
  case (Suc k)
  define u where "u = unit_roundoff"
  have u: "0 < u" "u < 1" using unit_roundoff_bounds by (simp_all add: u_def)
  define A where "A = \<bar>s0\<bar> * q ^ k"
  have A: "0 \<le> A" using q by (simp add: A_def)
  obtain s where it: "((\<lambda>s. dmul s (round64 q)) ^^ k) (Finite s0) = Finite s"
    and lo: "A * (1 - u) ^ (2 * k) \<le> \<bar>s\<bar>"
    and hi: "\<bar>s\<bar> \<le> A * (1 + u) ^ (2 * k)"
    using Suc.IH Suc.prems unfolding A_def u_def by (meson le_Suc_eq)
  have c0: "0 \<le> (1 - u) * q" using u q by simp
  then have cp: "0 \<le> c" using cl unfolding u_def by linarith
  have x: "\<bar>s * c\<bar> = \<bar>s\<bar> * c" using cp by (simp add: abs_mult)
  have L0: "0 \<le> A * (1 - u) ^ (2 * k)" using A u by simp
  have xlo: "A * (1 - u) ^ (2 * k) * ((1 - u) * q) \<le> \<bar>s\<bar> * c"
    using lo cl c0 L0 unfolding u_def by (intro mult_mono) simp_all
  have xhi: "\<bar>s\<bar> * c \<le> A * (1 + u) ^ (2 * k) * ((1 + u) * q)"
    using hi cu cp unfolding u_def by (intro mult_mono) (simp_all add: abs_ge_zero)
  have e1: "A * (1 - u) ^ (2 * k) * ((1 - u) * q) * (1 - u) =
      \<bar>s0\<bar> * q ^ Suc k * (1 - u) ^ (2 * Suc k)"
    by (simp add: A_def power2_eq_square algebra_simps)
  have e2: "A * (1 + u) ^ (2 * k) * ((1 + u) * q) * (1 + u) =
      \<bar>s0\<bar> * q ^ Suc k * (1 + u) ^ (2 * Suc k)"
    by (simp add: A_def power2_eq_square algebra_simps)
  have rng: "2 powi (- 1022) \<le> \<bar>s0\<bar> * q ^ Suc k * (1 - u) ^ (2 * Suc k)"
    "\<bar>s0\<bar> * q ^ Suc k * (1 + u) ^ (2 * Suc k) < 2 ^ 1024"
    using Suc.prems [of "Suc k"] unfolding u_def by simp_all
  have n1: "2 powi (- 1022) \<le> \<bar>s * c\<bar>"
  proof -
    have "A * (1 - u) ^ (2 * k) * ((1 - u) * q) * (1 - u) \<le>
        A * (1 - u) ^ (2 * k) * ((1 - u) * q) * 1"
      using L0 c0 u by (intro mult_left_mono) simp_all
    then have "\<bar>s0\<bar> * q ^ Suc k * (1 - u) ^ (2 * Suc k) \<le> A * (1 - u) ^ (2 * k) * ((1 - u) * q)"
      unfolding e1 by simp
    with rng(1) xlo show ?thesis unfolding x by linarith
  qed
  have n2: "\<bar>s * c\<bar> * (1 + u) < 2 ^ 1024"
  proof -
    have "\<bar>s\<bar> * c * (1 + u) \<le> A * (1 + u) ^ (2 * k) * ((1 + u) * q) * (1 + u)"
      using xhi u by (intro mult_right_mono) simp_all
    then have "\<bar>s\<bar> * c * (1 + u) \<le> \<bar>s0\<bar> * q ^ Suc k * (1 + u) ^ (2 * Suc k)"
      unfolding e2 .
    with rng(2) show ?thesis unfolding x by linarith
  qed
  obtain t where t: "round64 (s * c) = Finite t"
    and tlo: "(1 - u) * \<bar>s * c\<bar> \<le> \<bar>t\<bar>" and thi: "\<bar>t\<bar> \<le> (1 + u) * \<bar>s * c\<bar>"
    using round64_normal [OF n1 n2 [unfolded u_def]] unfolding u_def by blast
  have step: "((\<lambda>s. dmul s (round64 q)) ^^ Suc k) (Finite s0) = Finite t"
    by (simp only: funpow.simps o_apply it) (simp add: c t)
  have "\<bar>s0\<bar> * q ^ Suc k * (1 - u) ^ (2 * Suc k) \<le> (1 - u) * (\<bar>s\<bar> * c)"
  proof -
    have "A * (1 - u) ^ (2 * k) * ((1 - u) * q) * (1 - u) \<le> \<bar>s\<bar> * c * (1 - u)"
      using xlo u by (intro mult_right_mono) simp_all
    then show ?thesis unfolding e1 by (simp add: mult.commute)
  qed
  then have b1: "\<bar>s0\<bar> * q ^ Suc k * (1 - u) ^ (2 * Suc k) \<le> \<bar>t\<bar>"
    using tlo unfolding x by linarith
  have "(1 + u) * (\<bar>s\<bar> * c) \<le> \<bar>s0\<bar> * q ^ Suc k * (1 + u) ^ (2 * Suc k)"
  proof -
    have "\<bar>s\<bar> * c * (1 + u) \<le> A * (1 + u) ^ (2 * k) * ((1 + u) * q) * (1 + u)"
      using xhi u by (intro mult_right_mono) simp_all
    then show ?thesis unfolding e2 by (simp add: mult.commute)
  qed
  then have b2: "\<bar>t\<bar> \<le> \<bar>s0\<bar> * q ^ Suc k * (1 + u) ^ (2 * Suc k)"
    using thi unfolding x by linarith
  show ?case
    using step b1 b2 unfolding u_def by blast
qed

lemma iterate_shrink:
  fixes q c s0 :: real
  assumes c: "round64 q = Finite c" and cl: "(1 - unit_roundoff) * q \<le> c"
    and cu: "c \<le> (1 + unit_roundoff) * q" and q: "0 < q"
    and q1: "q * (1 + unit_roundoff)\<^sup>2 \<le> 1"
    and lo: "2 powi (- 1022) \<le> \<bar>s0\<bar> * q ^ k * (1 - unit_roundoff) ^ (2 * k)"
    and hi: "\<bar>s0\<bar> < 2 ^ 1024"
  shows "\<exists>s. ((\<lambda>s. dmul s (round64 q)) ^^ k) (Finite s0) = Finite s \<and>
           \<bar>s0\<bar> * q ^ k * (1 - unit_roundoff) ^ (2 * k) \<le> \<bar>s\<bar> \<and>
           \<bar>s\<bar> \<le> \<bar>s0\<bar> * q ^ k * (1 + unit_roundoff) ^ (2 * k)"
proof (rule iterate_dmul [OF c cl cu q])
  fix i :: nat
  assume i: "1 \<le> i" "i \<le> k"
  define u where "u = unit_roundoff"
  have u: "0 < u" "u < 1" using unit_roundoff_bounds by (simp_all add: u_def)
  define \<rho> where "\<rho> = q * (1 - u)\<^sup>2"
  define \<sigma> where "\<sigma> = q * (1 + u)\<^sup>2"
  have r0: "0 \<le> \<rho>" using q by (simp add: \<rho>_def)
  have s0: "0 \<le> \<sigma>" using q by (simp add: \<sigma>_def)
  have s1: "\<sigma> \<le> 1" using q1 by (simp add: \<sigma>_def u_def)
  have "(1 - u)\<^sup>2 \<le> (1 + u)\<^sup>2"
    using u by (intro power_mono) simp_all
  then have "\<rho> \<le> \<sigma>"
    unfolding \<rho>_def \<sigma>_def using q by (intro mult_left_mono) simp_all
  then have r1: "\<rho> \<le> 1" using s1 by simp
  have pr: "q ^ n * (1 - u) ^ (2 * n) = \<rho> ^ n" for n
    by (simp add: \<rho>_def power_mult_distrib power_mult)
  have ps: "q ^ n * (1 + u) ^ (2 * n) = \<sigma> ^ n" for n
    by (simp add: \<sigma>_def power_mult_distrib power_mult)
  have "\<rho> ^ k \<le> \<rho> ^ i"
    using i(2) r0 r1 by (rule power_decreasing)
  then have "\<bar>s0\<bar> * \<rho> ^ k \<le> \<bar>s0\<bar> * \<rho> ^ i"
    by (intro mult_left_mono) simp_all
  then have a: "2 powi (- 1022) \<le> \<bar>s0\<bar> * q ^ i * (1 - u) ^ (2 * i)"
    using lo pr [of k] pr [of i] unfolding u_def by (simp add: mult.assoc)
  have "\<sigma> ^ i \<le> 1"
    using s0 s1 by (rule power_le_one)
  then have "\<bar>s0\<bar> * \<sigma> ^ i \<le> \<bar>s0\<bar> * 1"
    by (intro mult_left_mono) simp_all
  then have b: "\<bar>s0\<bar> * q ^ i * (1 + u) ^ (2 * i) < 2 ^ 1024"
    using hi ps [of i] by (simp add: mult.assoc)
  from a b show "2 powi (- 1022) \<le> \<bar>s0\<bar> * q ^ i * (1 - unit_roundoff) ^ (2 * i) \<and>
      \<bar>s0\<bar> * q ^ i * (1 + unit_roundoff) ^ (2 * i) < 2 ^ 1024"
    unfolding u_def by simp
qed


text \<open>The doubles that the three literals of the animators denote.\<close>

lemma round64_098: "round64 0.98 = Finite (2206763817411543 / 2 ^ 51)"
proof -
  have "round64 0.98 = Finite (of_int 8827055269646172 * 2 powi (- 1 - 52))"
    by (rule round64_eval) (simp_all add: round_even_def power_int_minus)
  then show ?thesis by (simp add: power_int_minus)
qed



lemma iterate_098:
  assumes "2 powi (- 1022) \<le> \<bar>s0\<bar> * 0.98 ^ k * (1 - unit_roundoff) ^ (2 * k)"
    and "\<bar>s0\<bar> < 2 ^ 1024"
  shows "\<exists>s. ((\<lambda>s. dmul s (round64 0.98)) ^^ k) (Finite s0) = Finite s \<and>
           \<bar>s0\<bar> * 0.98 ^ k * (1 - unit_roundoff) ^ (2 * k) \<le> \<bar>s\<bar> \<and>
           \<bar>s\<bar> \<le> \<bar>s0\<bar> * 0.98 ^ k * (1 + unit_roundoff) ^ (2 * k)"
  by (rule iterate_shrink [OF round64_098 _ _ _ _ assms])
     (simp_all add: unit_roundoff_def power2_eq_square)



lemma animator_update64_funpow:
  "(animator_update64 a ^^ k) ps = map (animator_step64 a ^^ k) ps"
  by (induction k arbitrary: ps) (simp_all add: animator_update64_def funpow_swap1)

lemma size64_default_funpow:
  "size64 ((default_step64 ^^ k) p) =
     \<lparr>x64 = ((\<lambda>s. dmul s (round64 0.98)) ^^ k) (x64 (size64 p)),
      y64 = ((\<lambda>s. dmul s (round64 0.98)) ^^ k) (y64 (size64 p))\<rparr>"
  by (induction k) (simp_all add: default_step64_def)

lemma size64_fancy_funpow:
  "size64 ((fancy_step64 ^^ k) p) =
     \<lparr>x64 = ((\<lambda>s. dmul s (round64 0.98)) ^^ k) (x64 (size64 p)),
      y64 = ((\<lambda>s. dmul s (round64 0.98)) ^^ k) (y64 (size64 p))\<rparr>"
  by (induction k) (simp_all add: fancy_step64_def)


text \<open>
  Two steps on the example particle, product by product: for each product the exponent
  and the rounded 53-bit integer are given and checked.
\<close>

lemma size_x_after_two:
  "((\<lambda>s. dmul s (round64 0.98)) ^^ 2) (Finite 4) = Finite (135164283816457 / 2 ^ 45)"
proof -
  have s1: "dmul (Finite 4) (Finite (2206763817411543 / 2 ^ 51)) = Finite (2206763817411543 / 2 ^ 49)"
  proof -
    have "round64 (4 * (2206763817411543 / 2 ^ 51)) = Finite (of_int 8827055269646172 * 2 powi (1 - 52))"
      by (rule round64_eval) (simp_all add: round_even_def power_int_minus)
    then show ?thesis by (simp add: power_int_minus)
  qed
  have s2: "dmul (Finite (2206763817411543 / 2 ^ 49)) (Finite (2206763817411543 / 2 ^ 51)) = Finite (135164283816457 / 2 ^ 45)"
  proof -
    have "round64 ((2206763817411543 / 2 ^ 49) * (2206763817411543 / 2 ^ 51)) = Finite (of_int 8650514164253248 * 2 powi (1 - 52))"
      by (rule round64_eval) (simp_all add: round_even_def power_int_minus)
    then show ?thesis by (simp add: power_int_minus)
  qed
  show ?thesis
    unfolding round64_098
    by (simp only: numeral_2_eq_2 funpow.simps o_apply id_apply s1 s2)
qed

lemma size_y_after_two:
  "((\<lambda>s. dmul s (round64 0.98)) ^^ 2) (Finite 2) = Finite (135164283816457 / 2 ^ 46)"
proof -
  have s1: "dmul (Finite 2) (Finite (2206763817411543 / 2 ^ 51)) = Finite (2206763817411543 / 2 ^ 50)"
  proof -
    have "round64 (2 * (2206763817411543 / 2 ^ 51)) = Finite (of_int 8827055269646172 * 2 powi (0 - 52))"
      by (rule round64_eval) (simp_all add: round_even_def power_int_minus)
    then show ?thesis by (simp add: power_int_minus)
  qed
  have s2: "dmul (Finite (2206763817411543 / 2 ^ 50)) (Finite (2206763817411543 / 2 ^ 51)) = Finite (135164283816457 / 2 ^ 46)"
  proof -
    have "round64 ((2206763817411543 / 2 ^ 50) * (2206763817411543 / 2 ^ 51)) = Finite (of_int 8650514164253248 * 2 powi (0 - 52))"
      by (rule round64_eval) (simp_all add: round_even_def power_int_minus)
    then show ?thesis by (simp add: power_int_minus)
  qed
  show ?thesis
    unfolding round64_098
    by (simp only: numeral_2_eq_2 funpow.simps o_apply id_apply s1 s2)
qed





lemma nearest_closed_form_size: "round64 (4 * 0.98 ^ 2) = Finite (8650514164253249 / 2 ^ 51)"
proof -
  have "round64 (4 * 0.98 ^ 2) = Finite (of_int 8650514164253249 * 2 powi (1 - 52))"
    by (rule round64_eval) (simp_all add: round_even_def power_int_minus power2_eq_square)
  then show ?thesis by (simp add: power_int_minus)
qed


text \<open>
  The steps in double precision write the same fields as the steps of the system's model:
  neither touches the velocity, and the default one leaves the colour alone.
\<close>

lemma velocity64_animator_step64: "velocity64 (animator_step64 a p) = velocity64 p"
  by (cases a) (simp_all add: default_step64_def fancy_step64_def)

lemma color64_default_step64: "color64 (default_step64 p) = color64 p"
  by (simp add: default_step64_def)

text \<open>
  C4, as the code has it. One update step of the default animator adds each particle's
  velocity to its position and multiplies both axes of its size by 0.98, in double
  arithmetic: the factor is the double nearest to 0.98, and every sum and product is
  rounded to the nearest double. After \<open>k\<close> steps each axis of the size is therefore the
  initial value multiplied \<open>k\<close> times by that factor, rounded after each product. That
  is the initial value times \<open>0.98 ^ k\<close> up to rounding only: while the products stay in
  the normal range of the doubles, the result is finite and its magnitude lies between
  \<open>|s0| * 0.98 ^ k * (1 - 2^(-53)) ^ (2 k)\<close> and \<open>|s0| * 0.98 ^ k * (1 + 2^(-53)) ^ (2 k)\<close>.
\<close>

theorem default_animator_rounded_size:
  "(animator_update64 DefaultParticleAnimator ^^ k) ps = map (default_step64 ^^ k) ps \<and>
   pos64 (default_step64 p) =
     \<lparr>x64 = dadd (x64 (pos64 p)) (x64 (velocity64 p)),
      y64 = dadd (y64 (pos64 p)) (y64 (velocity64 p))\<rparr> \<and>
   size64 ((default_step64 ^^ k) p) =
     \<lparr>x64 = ((\<lambda>s. dmul s (round64 0.98)) ^^ k) (x64 (size64 p)),
      y64 = ((\<lambda>s. dmul s (round64 0.98)) ^^ k) (y64 (size64 p))\<rparr> \<and>
   round64 0.98 = Finite (2206763817411543 / 2 ^ 51) \<and>
   (2 powi (- 1022) \<le> \<bar>s0\<bar> * 0.98 ^ k * (1 - unit_roundoff) ^ (2 * k) \<and> \<bar>s0\<bar> < 2 ^ 1024 \<longrightarrow>
      (\<exists>s. ((\<lambda>s. dmul s (round64 0.98)) ^^ k) (Finite s0) = Finite s \<and>
         \<bar>s0\<bar> * 0.98 ^ k * (1 - unit_roundoff) ^ (2 * k) \<le> \<bar>s\<bar> \<and>
         \<bar>s\<bar> \<le> \<bar>s0\<bar> * 0.98 ^ k * (1 + unit_roundoff) ^ (2 * k)))"
proof -
  have d: "animator_step64 DefaultParticleAnimator = default_step64"
    by (rule ext) simp
  have a: "(animator_update64 DefaultParticleAnimator ^^ k) ps = map (default_step64 ^^ k) ps"
    by (simp add: animator_update64_funpow d)
  have b: "pos64 (default_step64 p) =
     \<lparr>x64 = dadd (x64 (pos64 p)) (x64 (velocity64 p)),
      y64 = dadd (y64 (pos64 p)) (y64 (velocity64 p))\<rparr>"
    by (simp add: default_step64_def)
  from a b size64_default_funpow round64_098 iterate_098 show ?thesis
    by blast
qed

theorem default_animator_rounded_size_witness:
  "\<exists>s. ((\<lambda>s. dmul s (round64 0.98)) ^^ 2) (Finite 4) = Finite s \<and>
     4 * 0.98 ^ 2 * (1 - unit_roundoff) ^ 4 \<le> \<bar>s\<bar> \<and>
     \<bar>s\<bar> \<le> 4 * 0.98 ^ 2 * (1 + unit_roundoff) ^ 4"
proof -
  have h: "2 powi (- 1022) \<le> \<bar>4::real\<bar> * 0.98 ^ 2 * (1 - unit_roundoff) ^ (2 * 2) \<and>
      \<bar>4::real\<bar> < 2 ^ 1024"
    by (simp add: unit_roundoff_def power_int_minus power2_eq_square power4_eq_xxxx)
  note t = default_animator_rounded_size [of 2 "[]" example_particle64 4]
  show ?thesis
    using t [THEN conjunct2, THEN conjunct2, THEN conjunct2, THEN conjunct2, THEN mp, OF h]
    by simp
qed

text \<open>
  The claim C4 as the spec states it fails: a particle of size 4 by 2 has after two steps
  the size 3.8415999999999997 by 1.9207999999999998 (the doubles
  \<open>135164283816457 / 2^45\<close> and \<open>135164283816457 / 2^46\<close>). The first is not
  \<open>4 * 0.98\<^sup>2 = 3.8416\<close>, and not the double nearest to it either.
\<close>

theorem default_animator_closed_form_fails:
  "size64 ((default_step64 ^^ 2) example_particle64) =
     \<lparr>x64 = Finite (135164283816457 / 2 ^ 45), y64 = Finite (135164283816457 / 2 ^ 46)\<rparr> \<and>
   (135164283816457 / 2 ^ 45 :: real) \<noteq> 4 * 0.98 ^ 2 \<and>
   round64 (4 * 0.98 ^ 2) \<noteq> Finite (135164283816457 / 2 ^ 45)"
proof -
  have s: "size64 example_particle64 = \<lparr>x64 = Finite 4, y64 = Finite 2\<rparr>"
    by (simp add: example_particle64_def)
  have a: "size64 ((default_step64 ^^ 2) example_particle64) =
     \<lparr>x64 = Finite (135164283816457 / 2 ^ 45), y64 = Finite (135164283816457 / 2 ^ 46)\<rparr>"
    unfolding size64_default_funpow s by (simp only: xy64.simps size_x_after_two size_y_after_two)
  have b: "(135164283816457 / 2 ^ 45 :: real) \<noteq> 4 * 0.98 ^ 2"
    by (simp add: power2_eq_square)
  have c: "round64 (4 * 0.98 ^ 2) \<noteq> Finite (135164283816457 / 2 ^ 45)"
    unfolding nearest_closed_form_size by simp
  from a b c show ?thesis by (intro conjI)
qed




section \<open>What one update does to a particle\<close>

text \<open>
  C6. With a cap that is not negative, \<open>update()\<close> returns, and the collection it
  leaves is a part of the old particles, each aged by one animator step, followed by a
  part of the new ones as the spawn loop made them: the animator has not touched them.
  Every particle the loop makes has for position the origin recomputed in this call
  (\<open>width\<close> and \<open>height\<close> times the configured fraction), for size the size template
  and for colour the colour template. The two parts are what the trimming leaves: of the
  new particles the first are dropped only when the batch alone exceeds the cap.
\<close>

theorem update_spawns_unaged:
  assumes "0 \<le> maxParticles w"
  shows "\<exists>w'. update w = Some w' \<and>
           particles w' =
             drop (length (particles w) + nat (particlesPerUpdate w) - nat (maxParticles w))
               (map (animator_step (particleAnimator w)) (particles w)) @
             drop (nat (particlesPerUpdate w) - nat (maxParticles w))
               (map (spawn_particle (with_origin w)) [0 ..< nat (particlesPerUpdate w)]) \<and>
           particleOrigin_var w' = \<lparr>x_of = width w * x_of (particleOrigin w),
                                     y_of = height w * y_of (particleOrigin w)\<rparr> \<and>
           (\<forall>j. pos (spawn_particle (with_origin w) j) =
                   \<lparr>x_of = width w * x_of (particleOrigin w),
                    y_of = height w * y_of (particleOrigin w)\<rparr> \<and>
                psize (spawn_particle (with_origin w) j) = particleSize w \<and>
                color (spawn_particle (with_origin w) j) = particleColor w)"
proof -
  let ?old = "map (animator_step (particleAnimator w)) (particles w)"
  let ?new = "map (spawn_particle (with_origin w)) [0 ..< nat (particlesPerUpdate w)]"
  let ?k = "length (particles w) + nat (particlesPerUpdate w) - nat (maxParticles w)"
  obtain w' where u: "update w = Some w'" and p: "particles w' = drop ?k (?old @ ?new)"
    and o: "particleOrigin_var w' = \<lparr>x_of = width w * x_of (particleOrigin w),
                                      y_of = height w * y_of (particleOrigin w)\<rparr>"
    using update_particles [OF assms] by (auto simp: animator_update_def)
  have "?k - length ?old = nat (particlesPerUpdate w) - nat (maxParticles w)"
    by simp
  then have "drop ?k (?old @ ?new) =
      drop ?k ?old @ drop (nat (particlesPerUpdate w) - nat (maxParticles w)) ?new"
    by (simp only: drop_append)
  with u p o show ?thesis
    by (simp add: spawn_particle_def with_origin_def)
qed

theorem update_spawns_unaged_witness:
  "\<exists>w'. update example_full = Some w' \<and>
        particles w' =
          [default_step (example_particle\<lparr>psize := \<lparr>x_of = 9, y_of = 9\<rparr>\<rparr>),
           \<lparr>pos = \<lparr>x_of = 150, y_of = 75\<rparr>, psize = \<lparr>x_of = 1, y_of = 1\<rparr>,
            color = \<lparr>r_of = 255, g_of = 255, b_of = 255, a_of = 1\<rparr>,
            velocity = \<lparr>x_of = 1, y_of = - 1\<rparr>\<rparr>]"
proof -
  have m: "0 \<le> maxParticles example_full"
    by (simp add: example_full_def)
  have f: "maxParticles example_full = 2" "particlesPerUpdate example_full = 1"
    "particleAnimator example_full = DefaultParticleAnimator"
    "particles example_full =
       [example_particle, example_particle\<lparr>psize := \<lparr>x_of = 9, y_of = 9\<rparr>\<rparr>]"
    by (simp_all add: example_full_def example_system_def ParticleSystem_def)
  have n: "spawn_particle (with_origin example_full) 0 =
      \<lparr>pos = \<lparr>x_of = 150, y_of = 75\<rparr>, psize = \<lparr>x_of = 1, y_of = 1\<rparr>,
       color = \<lparr>r_of = 255, g_of = 255, b_of = 255, a_of = 1\<rparr>,
       velocity = \<lparr>x_of = 1, y_of = - 1\<rparr>\<rparr>"
    by (simp add: spawn_particle_def with_origin_def example_full_def example_system_def
          ParticleSystem_def example_random_def)
  obtain w' where u: "update example_full = Some w'"
    and p: "particles w' =
             drop (length (particles example_full) + nat (particlesPerUpdate example_full)
                     - nat (maxParticles example_full))
               (map (animator_step (particleAnimator example_full)) (particles example_full)) @
             drop (nat (particlesPerUpdate example_full) - nat (maxParticles example_full))
               (map (spawn_particle (with_origin example_full))
                  [0 ..< nat (particlesPerUpdate example_full)])"
    using update_spawns_unaged [OF m] by blast
  have c: "particles w' =
          [default_step (example_particle\<lparr>psize := \<lparr>x_of = 9, y_of = 9\<rparr>\<rparr>),
           \<lparr>pos = \<lparr>x_of = 150, y_of = 75\<rparr>, psize = \<lparr>x_of = 1, y_of = 1\<rparr>,
            color = \<lparr>r_of = 255, g_of = 255, b_of = 255, a_of = 1\<rparr>,
            velocity = \<lparr>x_of = 1, y_of = - 1\<rparr>\<rparr>]"
    unfolding p f by (simp add: n)
  show ?thesis
    by (rule exI [of _ w']) (rule conjI [OF u c])
qed

lemma velocity_animator_step: "velocity (animator_step a p) = velocity p"
  by (cases a) (simp_all add: default_step_def fancy_step_def)

lemma particles_draw: "particles (state_after (draw w)) = particles w"
  by (simp add: draw_def put_context_def split: option.splits sum.splits prod.splits)

text \<open>
  C7. The velocity of a particle is set by its constructor, to \<open>(random() - 0.5)\<close>
  times the speed of that moment on each axis, the x axis drawing its random number
  first. After that nothing writes it: neither animator's update step changes the
  velocity of any particle, \<open>draw()\<close> leaves the whole collection as it is, and after
  \<open>update()\<close> the velocities of the collection are those of the old particles, in
  order, followed by those just assigned to the new ones, with the evicted prefix gone.
\<close>

theorem velocity_unchanged:
  "(0 \<le> maxParticles w \<longrightarrow>
     (\<exists>w'. update w = Some w' \<and>
        map velocity (particles w') =
          drop (length (particles w) + nat (particlesPerUpdate w) - nat (maxParticles w))
            (map velocity (particles w) @
             map (\<lambda>j. \<lparr>x_of = (random_values w (random_calls w + 2 * j) - 0.5) * particleSpeed w,
                       y_of = (random_values w (random_calls w + 2 * j + 1) - 0.5) * particleSpeed w\<rparr>)
               [0 ..< nat (particlesPerUpdate w)]))) \<and>
   particles (state_after (draw w)) = particles w \<and>
   map velocity (animator_update a ps) = map velocity ps \<and>
   velocity (fst (Particle xypos xysize rgbacolor speed w)) =
     \<lparr>x_of = (random_values w (random_calls w) - 0.5) * speed,
      y_of = (random_values w (random_calls w + 1) - 0.5) * speed\<rparr>"
proof -
  have v: "velocity \<circ> spawn_particle (with_origin w) =
      (\<lambda>j. \<lparr>x_of = (random_values w (random_calls w + 2 * j) - 0.5) * particleSpeed w,
            y_of = (random_values w (random_calls w + 2 * j + 1) - 0.5) * particleSpeed w\<rparr>)"
    by (rule ext) (simp add: spawn_particle_def with_origin_def)
  have a: "map velocity (animator_update b qs) = map velocity qs" for b qs
    by (simp add: animator_update_def velocity_animator_step)
  have c: "velocity (fst (Particle xypos xysize rgbacolor speed w)) =
     \<lparr>x_of = (random_values w (random_calls w) - 0.5) * speed,
      y_of = (random_values w (random_calls w + 1) - 0.5) * speed\<rparr>"
    by (simp add: Particle_def Math_random_def Let_def)
  have "\<exists>w'. update w = Some w' \<and>
        map velocity (particles w') =
          drop (length (particles w) + nat (particlesPerUpdate w) - nat (maxParticles w))
            (map velocity (particles w) @
             map (\<lambda>j. \<lparr>x_of = (random_values w (random_calls w + 2 * j) - 0.5) * particleSpeed w,
                       y_of = (random_values w (random_calls w + 2 * j + 1) - 0.5) * particleSpeed w\<rparr>)
               [0 ..< nat (particlesPerUpdate w)])"
    if m: "0 \<le> maxParticles w"
  proof -
    obtain w' where u: "update w = Some w'"
      and p: "particles w' =
             drop (length (particles w) + nat (particlesPerUpdate w) - nat (maxParticles w))
               (animator_update (particleAnimator w) (particles w) @
                map (spawn_particle (with_origin w)) [0 ..< nat (particlesPerUpdate w)])"
      using update_particles [OF m] by blast
    have "map velocity (particles w') =
          drop (length (particles w) + nat (particlesPerUpdate w) - nat (maxParticles w))
            (map velocity (particles w) @
             map (velocity \<circ> spawn_particle (with_origin w)) [0 ..< nat (particlesPerUpdate w)])"
      unfolding p by (simp only: drop_map [symmetric] map_append a map_map)
    with u show ?thesis
      unfolding v by blast
  qed
  then show ?thesis
    using particles_draw a c by blast
qed

theorem velocity_unchanged_witness:
  "\<exists>w'. update example_full = Some w' \<and>
        map velocity (particles w') = [\<lparr>x_of = 3, y_of = - 1\<rparr>, \<lparr>x_of = 1, y_of = - 1\<rparr>]"
proof -
  have m: "0 \<le> maxParticles example_full"
    by (simp add: example_full_def)
  have f: "maxParticles example_full = 2" "particlesPerUpdate example_full = 1"
    "particleSpeed example_full = 4" "random_calls example_full = 0"
    "random_values example_full = example_random"
    "particles example_full =
       [example_particle, example_particle\<lparr>psize := \<lparr>x_of = 9, y_of = 9\<rparr>\<rparr>]"
    by (simp_all add: example_full_def example_system_def ParticleSystem_def)
  obtain w' where u: "update example_full = Some w'"
    and p: "map velocity (particles w') =
          drop (length (particles example_full) + nat (particlesPerUpdate example_full)
                  - nat (maxParticles example_full))
            (map velocity (particles example_full) @
             map (\<lambda>j. \<lparr>x_of = (random_values example_full (random_calls example_full + 2 * j) - 0.5)
                               * particleSpeed example_full,
                       y_of = (random_values example_full (random_calls example_full + 2 * j + 1) - 0.5)
                               * particleSpeed example_full\<rparr>)
               [0 ..< nat (particlesPerUpdate example_full)])"
    using velocity_unchanged [of example_full] m by blast
  have c: "map velocity (particles w') = [\<lparr>x_of = 3, y_of = - 1\<rparr>, \<lparr>x_of = 1, y_of = - 1\<rparr>]"
    unfolding p f by (simp add: example_particle_def example_random_def)
  show ?thesis
    by (rule exI [of _ w']) (rule conjI [OF u c])
qed

section \<open>The background that draw paints\<close>

lemma renderer_draw_frame:
  "\<exists>ops. painted (state_after (renderer_draw rd p c)) = painted c @ ops \<and>
         saved (state_after (renderer_draw rd p c)) = saved c"
  by (cases rd)
     (simp_all add: ctx_fillRect_def ctx_set_fillStyle_def ctx_beginPath_def ctx_arc_def
        ctx_fill_def Let_def)

lemma draw_particles_frame:
  "\<exists>ops. painted (state_after (draw_particles rd ps c)) = painted c @ ops \<and>
         saved (state_after (draw_particles rd ps c)) = saved c"
proof (induction ps arbitrary: c)
  case Nil
  then show ?case by simp
next
  case (Cons p ps)
  obtain ops1 where r: "painted (state_after (renderer_draw rd p c)) = painted c @ ops1"
    "saved (state_after (renderer_draw rd p c)) = saved c"
    using renderer_draw_frame by blast
  show ?case
  proof (cases "renderer_draw rd p c")
    case (Inl e)
    then show ?thesis using r by (cases e) simp
  next
    case (Inr c')
    obtain ops2 where "painted (state_after (draw_particles rd ps c')) = painted c' @ ops2"
      "saved (state_after (draw_particles rd ps c')) = saved c'"
      using Cons.IH by blast
    then show ?thesis using r Inr by simp
  qed
qed

lemma animator_draw_frame:
  "\<exists>ops. painted (state_after (animator_draw a ps rd c)) = painted c @ ops \<and>
         saved (state_after (animator_draw a ps rd c)) = saved c"
proof (cases a)
  case DefaultParticleAnimator
  then show ?thesis using draw_particles_frame [of rd ps c] by simp
next
  case FancyParticleAnimator
  then show ?thesis
    using draw_particles_frame [of rd ps "ctx_set_globalCompositeOperation Lighter c"]
    by (simp add: ctx_set_globalCompositeOperation_def)
qed

lemma draw_background_top:
  assumes "saved c = st # ss"
  shows "painted (draw_background wd ht c) =
           painted c @ [ClearRect 0 0 wd ht, FillRect 0 0 wd ht st]"
    and "saved (draw_background wd ht c) = st # ss"
  using assms
  by (simp_all add: draw_background_def ctx_save_def ctx_fillRect_def ctx_clearRect_def
        ctx_restore_def)

lemma the_context_put:
  "the_context w = Some (k, c) \<Longrightarrow> the_context (put_context k c' w) = Some (k, c')"
  by (auto simp: the_context_def put_context_def split: option.splits element.splits)

lemma draw_state_after:
  assumes "the_context w = Some (k, c)"
  shows "state_after (draw w) =
     put_context k (state_after (animator_draw (particleAnimator w) (particles w)
        (particleRenderer w) (draw_background (width w) (height w) c))) w"
  using assms by (auto simp: draw_def split: sum.splits)

lemma draw_paints_saved:
  assumes "saved_top w = Some st"
  shows "take (length (painted_ops w) + 2) (painted_ops (state_after (draw w))) =
           painted_ops w @ [ClearRect 0 0 (width w) (height w), FillRect 0 0 (width w) (height w) st]"
    and "saved_top (state_after (draw w)) = Some st"
proof -
  obtain k c ss where c: "the_context w = Some (k, c)" and s: "saved c = st # ss"
    using assms by (auto simp: saved_top_def split: option.splits list.splits)
  let ?bg = "draw_background (width w) (height w) c"
  let ?c' = "state_after (animator_draw (particleAnimator w) (particles w) (particleRenderer w) ?bg)"
  obtain ops where p: "painted ?c' = painted ?bg @ ops" and sv: "saved ?c' = saved ?bg"
    using animator_draw_frame by blast
  have ctx': "the_context (state_after (draw w)) = Some (k, ?c')"
    unfolding draw_state_after [OF c] by (rule the_context_put [OF c])
  show "take (length (painted_ops w) + 2) (painted_ops (state_after (draw w))) =
           painted_ops w @ [ClearRect 0 0 (width w) (height w), FillRect 0 0 (width w) (height w) st]"
    using c ctx' p draw_background_top(1) [OF s] by (simp add: painted_ops_def)
  show "saved_top (state_after (draw w)) = Some st"
    using ctx' sv draw_background_top(2) [OF s] by (simp add: saved_top_def)
qed

lemma the_context_frame:
  "context_var w' = context_var w \<Longrightarrow> document w' = document w \<Longrightarrow>
     the_context w' = the_context w"
  by (simp add: the_context_def split: option.splits)

lemma saved_top_update:
  assumes "update w = Some w'"
  shows "saved_top w' = saved_top w"
proof -
  have m: "0 \<le> maxParticles w"
    using assms update_diverges [of w] by (cases "0 \<le> maxParticles w") simp_all
  have "the_context w' = the_context w"
    using assms unfolding update_eq [OF m]
    by (intro the_context_frame) auto
  then show ?thesis
    by (simp add: saved_top_def)
qed

lemma saved_top_backgroundColor:
  "saved_top (w\<lparr>backgroundColor := c\<rparr>) = saved_top w"
  by (simp add: saved_top_def the_context_frame [of "w\<lparr>backgroundColor := c\<rparr>" w])

lemma initialize_saved_top:
  assumes "initialize w = Inr w1"
  shows "\<exists>st. saved_top w1 = Some st \<and> fillStyle st = rgbaToString (backgroundColor w)"
  using assms
  by (auto simp: initialize_def Let_def resize_def the_context_def put_context_def saved_top_def
        ctx_save_def ctx_set_fillStyle_def
      split: option.splits element.splits sum.splits if_splits prod.splits)

text \<open>
  C8, as the code has it. \<open>draw()\<close> never reads \<open>backgroundColor\<close>: it restores the
  drawing state on top of the context's stack of saved states, paints the full surface
  with the fill style of that state, and saves the state again. \<open>initialize()\<close> puts
  there the style made from the \<open>backgroundColor\<close> of that moment; \<open>draw()\<close> (also
  one that a renderer's exception ends), \<open>update()\<close> and an assignment to
  \<open>backgroundColor\<close> all leave it there. So every later \<open>draw()\<close> repaints with the
  colour configured when \<open>initialize()\<close> ran, whatever the field holds by then.
\<close>

theorem draw_paints_saved_background:
  "(initialize w = Inr w1 \<longrightarrow>
      (\<exists>st. saved_top w1 = Some st \<and> fillStyle st = rgbaToString (backgroundColor w))) \<and>
   (saved_top w = Some st \<longrightarrow>
      take (length (painted_ops w) + 2)
        (painted_ops (state_after (draw (w\<lparr>backgroundColor := c\<rparr>)))) =
        painted_ops w @
          [ClearRect 0 0 (width w) (height w), FillRect 0 0 (width w) (height w) st] \<and>
      saved_top (state_after (draw (w\<lparr>backgroundColor := c\<rparr>))) = Some st) \<and>
   (update w = Some w2 \<longrightarrow> saved_top w2 = saved_top w) \<and>
   saved_top (w\<lparr>backgroundColor := c\<rparr>) = saved_top w"
proof -
  have d: "take (length (painted_ops w) + 2)
        (painted_ops (state_after (draw (w\<lparr>backgroundColor := c\<rparr>)))) =
        painted_ops w @
          [ClearRect 0 0 (width w) (height w), FillRect 0 0 (width w) (height w) st] \<and>
      saved_top (state_after (draw (w\<lparr>backgroundColor := c\<rparr>))) = Some st"
    if st: "saved_top w = Some st"
  proof -
    have s: "saved_top (w\<lparr>backgroundColor := c\<rparr>) = Some st"
      using st by (simp add: saved_top_backgroundColor)
    have p: "painted_ops (w\<lparr>backgroundColor := c\<rparr>) = painted_ops w"
      by (simp add: painted_ops_def the_context_frame [of "w\<lparr>backgroundColor := c\<rparr>" w])
    show ?thesis
      using draw_paints_saved [OF s] p by simp
  qed
  show ?thesis
    using initialize_saved_top d saved_top_update saved_top_backgroundColor by blast
qed

theorem draw_paints_saved_background_witness:
  "\<exists>st. fillStyle st = RgbaString 0 0 0 1 \<and>
     take 2 (painted_ops (state_after (draw ((state_after (initialize example_system))
        \<lparr>backgroundColor := \<lparr>r_of = 255, g_of = 0, b_of = 0, a_of = 1\<rparr>\<rparr>)))) =
       [ClearRect 0 0 300 150, FillRect 0 0 300 150 st]"
proof -
  let ?w1 = "state_after (initialize example_system)"
  let ?red = "\<lparr>r_of = 255, g_of = 0, b_of = 0, a_of = 1\<rparr>"
  have "\<exists>w1. initialize example_system = Inr w1"
    by (simp add: example_system_def ParticleSystem_def initialize_def example_document_def
          example_canvas_def resize_def the_context_def put_context_def Let_def)
  then have i: "initialize example_system = Inr ?w1"
    by auto
  have f: "painted_ops ?w1 = []" "width ?w1 = 300" "height ?w1 = 150"
    by (simp_all add: example_system_def ParticleSystem_def initialize_def example_document_def
          example_canvas_def resize_def the_context_def put_context_def Let_def painted_ops_def
          ctx_save_def ctx_set_fillStyle_def)
  have b: "rgbaToString (backgroundColor example_system) = RgbaString 0 0 0 1"
    by (simp add: example_system_def ParticleSystem_def rgbaToString_def Math_round_def)
  obtain st where s: "saved_top ?w1 = Some st"
    and fs: "fillStyle st = rgbaToString (backgroundColor example_system)"
    using draw_paints_saved_background [of example_system ?w1] i by blast
  have "take (length (painted_ops ?w1) + 2)
        (painted_ops (state_after (draw (?w1\<lparr>backgroundColor := ?red\<rparr>)))) =
        painted_ops ?w1 @
          [ClearRect 0 0 (width ?w1) (height ?w1), FillRect 0 0 (width ?w1) (height ?w1) st]"
    using draw_paints_saved_background [of ?w1 _ st ?red] s by blast
  then have t: "take 2 (painted_ops (state_after (draw (?w1\<lparr>backgroundColor := ?red\<rparr>)))) =
       [ClearRect 0 0 300 150, FillRect 0 0 300 150 st]"
    unfolding f by (simp add: numeral_2_eq_2)
  have fs': "fillStyle st = RgbaString 0 0 0 1"
    using fs b by simp
  show ?thesis
    by (rule exI [of _ st]) (rule conjI [OF fs' t])
qed

text \<open>
  The claim C8 as the spec states it fails: initialised with the default black
  background and then given a red \<open>backgroundColor\<close>, the system's next \<open>draw()\<close>
  returns and has painted the full surface with the style of black, which is not the
  style of the new colour.
\<close>

theorem draw_ignores_new_background:
  "painted_ops (state_after (draw ((state_after (initialize example_system))
      \<lparr>backgroundColor := \<lparr>r_of = 255, g_of = 0, b_of = 0, a_of = 1\<rparr>\<rparr>))) =
     [ClearRect 0 0 300 150,
      FillRect 0 0 300 150
        \<lparr>fillStyle = RgbaString 0 0 0 1, globalCompositeOperation = SourceOver\<rparr>] \<and>
   rgbaToString \<lparr>r_of = 255, g_of = 0, b_of = 0, a_of = 1\<rparr> = RgbaString 255 0 0 1 \<and>
   \<not> isl (initialize example_system) \<and>
   \<not> isl (draw ((state_after (initialize example_system))
      \<lparr>backgroundColor := \<lparr>r_of = 255, g_of = 0, b_of = 0, a_of = 1\<rparr>\<rparr>))"
  by (simp add: example_system_def ParticleSystem_def initialize_def example_document_def
      example_canvas_def resize_def the_context_def put_context_def ctx_save_def
      ctx_set_fillStyle_def rgbaToString_def Math_round_def draw_def draw_background_def
      ctx_restore_def ctx_clearRect_def ctx_fillRect_def painted_ops_def initial_drawstate_def
      Let_def)

section \<open>The fractions that getCanvasPos returns\<close>

text \<open>
  What the function computes: for a surface of positive width and height it returns
  \<open>(clientX - offsetLeft) / width\<close> and \<open>(clientY - offsetTop) / height\<close>, and both
  lie between 0 and 1 exactly when the event lies on the surface, from its offset to its
  offset plus its dimension on each axis.
\<close>

lemma getCanvasPos_fraction:
  assumes "0 < canvas_width cv" and "0 < canvas_height cv"
  shows "getCanvasPos ev cv =
           \<lparr>frac_x = Num ((clientX ev - offsetLeft cv) / real (canvas_width cv)),
            frac_y = Num ((clientY ev - offsetTop cv) / real (canvas_height cv))\<rparr> \<and>
         ((in_unit_interval (frac_x (getCanvasPos ev cv)) \<and>
           in_unit_interval (frac_y (getCanvasPos ev cv))) =
          (offsetLeft cv \<le> clientX ev \<and> clientX ev \<le> offsetLeft cv + real (canvas_width cv) \<and>
           offsetTop cv \<le> clientY ev \<and> clientY ev \<le> offsetTop cv + real (canvas_height cv)))"
proof -
  have r: "getCanvasPos ev cv =
           \<lparr>frac_x = Num ((clientX ev - offsetLeft cv) / real (canvas_width cv)),
            frac_y = Num ((clientY ev - offsetTop cv) / real (canvas_height cv))\<rparr>"
    using assms by (simp add: getCanvasPos_def getCanvasPos_this_def js_div_def Let_def)
  have x: "(0 \<le> (clientX ev - offsetLeft cv) / real (canvas_width cv) \<and>
            (clientX ev - offsetLeft cv) / real (canvas_width cv) \<le> 1) =
           (offsetLeft cv \<le> clientX ev \<and> clientX ev \<le> offsetLeft cv + real (canvas_width cv))"
    using assms(1) by (auto simp: field_simps)
  have y: "(0 \<le> (clientY ev - offsetTop cv) / real (canvas_height cv) \<and>
            (clientY ev - offsetTop cv) / real (canvas_height cv) \<le> 1) =
           (offsetTop cv \<le> clientY ev \<and> clientY ev \<le> offsetTop cv + real (canvas_height cv))"
    using assms(2) by (auto simp: field_simps)
  show ?thesis
    unfolding r using x y by auto
qed

text \<open>The event at (110, 60) over the surface of 200 by 100 at (10, 10).\<close>

lemma getCanvasPos_example:
  "getCanvasPos \<lparr>clientX = 110, clientY = 60\<rparr> example_surface =
     \<lparr>frac_x = Num 0.5, frac_y = Num 0.5\<rparr>"
  using getCanvasPos_fraction [of example_surface "\<lparr>clientX = 110, clientY = 60\<rparr>"]
  by (simp add: example_surface_def example_canvas_def)

text \<open>
  C9. The documentation of \<open>getCanvasPos\<close> gives its result as canvas coordinates in
  [0,1], and the claim says that the returned fractions lie in that range for every
  event. The code does not keep to it: for an event at the corner (0, 0) of the viewport,
  left of and above the surface at (10, 10), it returns the two negative fractions
  \<open>- 1 / 20\<close> and \<open>- 1 / 10\<close>.
\<close>

theorem getCanvasPos_outside_unit_square:
  "getCanvasPos \<lparr>clientX = 0, clientY = 0\<rparr> example_surface =
     \<lparr>frac_x = Num (- 1 / 20), frac_y = Num (- 1 / 10)\<rparr> \<and>
   \<not> in_unit_interval (frac_x (getCanvasPos \<lparr>clientX = 0, clientY = 0\<rparr> example_surface)) \<and>
   \<not> in_unit_interval (frac_y (getCanvasPos \<lparr>clientX = 0, clientY = 0\<rparr> example_surface))"
  by (simp add: getCanvasPos_def getCanvasPos_this_def js_div_def Let_def example_surface_def
      example_canvas_def)

end
